theory Spec2Isabelle
  imports Main "HOL-Library.Word" "HOL-Library.Sublist"
begin

section \<open>Machine types, fatal conditions and observable calls\<close>

text \<open>
  The header \<^verbatim>\<open>core/operator.h\<close> indexes its tensor vectors with a C \<^verbatim>\<open>int\<close>
  and measures them with \<^verbatim>\<open>size_t\<close>; both are modelled with their width, so that the casts
  \<^verbatim>\<open>(int)inputs_.size()\<close> and \<^verbatim>\<open>idx + inputs_.size()\<close> are the ones the code performs.
  A \<^verbatim>\<open>Tensor*\<close> is an address into the store of tensor objects.
\<close>

type_synonym c_int = "32 word"
type_synonym size_t = "64 word"
type_synonym addr = nat

text \<open>What a failed check streams to the log: the values written with \<^verbatim>\<open><<\<close>, in order.\<close>

datatype diag = Str string | Num int

text \<open>
  Every way in which the code of the header stops the process. The \<^verbatim>\<open>CHECK\<close> family logs
  and aborts; an out-of-range \<^verbatim>\<open>operator[]\<close> and the dereference of a null pointer are
  undefined behaviour and are kept apart from the checked failures. \<open>Fatal\<close> is a fatal
  condition raised inside a collaborator (a kernel, a device context).
\<close>

datatype error =
    CHECK_LT_failed
  | CHECK_GE_failed
  | CHECK_failed "diag list"
  | CHECK_EQ_failed "diag list"
  | OutOfBoundsRead
  | NullDereference
  | ArgumentKindMismatch
  | ArgumentOverflow
  | Fatal "diag list"

text \<open>The calls \<^verbatim>\<open>Run()\<close> and \<^verbatim>\<open>MemorySwitch()\<close> make, recorded when they are made.\<close>

datatype event =
    E_Context_SwitchToDevice
  | E_ShareBeforeRun
  | E_MemorySwitch
  | E_Tensor_SwitchToDevice addr
  | E_RunOnDevice
  | E_ClearAfterRun
  | E_FinishDeviceCompution

section \<open>Collaborators declared outside the header\<close>

subsection \<open>Tensor\<close>

text \<open>
  \<^verbatim>\<open>TIndex\<close> is declared outside the header: it is a machine integer of some width \<open>'w\<close>,
  read as signed. The element type \<open>'v\<close> stands for the template parameter \<^verbatim>\<open>T\<close>.
\<close>

record (overloaded) ('w, 'v) Tensor =
  tensor_name :: string
  tensor_dims :: "'w word list"
  tensor_size :: "'w word"
  tensor_data :: "'v list"
  on_device :: bool

text \<open>Modelled from the spec: \<^verbatim>\<open>Tensor::count\<close>, the element count of the tensor.\<close>

definition count :: "('w::len, 'v) Tensor \<Rightarrow> 'w word" where
  "count t = tensor_size t"

text \<open>
  Modelled from the spec: \<^verbatim>\<open>Tensor::Reshape\<close> gives the tensor the requested shape, so that
  its count is the product of the shape, and moves no data.
\<close>

definition Reshape :: "('w::len, 'v) Tensor \<Rightarrow> 'w word list \<Rightarrow> ('w, 'v) Tensor" where
  "Reshape t shape = t\<lparr>tensor_dims := shape, tensor_size := foldl (*) 1 shape\<rparr>"

text \<open>
  Modelled from the spec: \<^verbatim>\<open>Tensor::SwitchToDevice\<close> migrates the storage of the tensor to
  the device of the operator.
\<close>

definition Tensor_SwitchToDevice :: "('w::len, 'v) Tensor \<Rightarrow> ('w, 'v) Tensor" where
  "Tensor_SwitchToDevice t = t\<lparr>on_device := True\<rparr>"

text \<open>Modelled from the spec: a tensor the workspace has just created is empty.\<close>

definition new_Tensor :: "string \<Rightarrow> ('w::len, 'v) Tensor" where
  "new_Tensor name = \<lparr>tensor_name = name, tensor_dims = [], tensor_size = 0, tensor_data = [], on_device = False\<rparr>"

text \<open>
  Modelled from the spec: \<^verbatim>\<open>Filler::Fill\<close> populates the tensor; the filler decides the
  content from the (already reshaped) tensor.
\<close>

definition Fill :: "(('w::len, 'v) Tensor \<Rightarrow> 'v list) \<Rightarrow> ('w, 'v) Tensor \<Rightarrow> ('w, 'v) Tensor" where
  "Fill filler t = t\<lparr>tensor_data := filler t\<rparr>"

text \<open>
  Modelled from the spec: \<^verbatim>\<open>math::Set(n, alpha, x)\<close> writes \<open>alpha\<close> to the first \<open>n\<close>
  elements of the storage \<^verbatim>\<open>mutable_data\<close> hands out (allocated on demand).
\<close>

definition math_Set :: "nat \<Rightarrow> 'v \<Rightarrow> ('w::len, 'v) Tensor \<Rightarrow> ('w, 'v) Tensor" where
  "math_Set n alpha t = t\<lparr>tensor_data := replicate n alpha @ drop n (tensor_data t)\<rparr>"

subsection \<open>Workspace\<close>

text \<open>
  The workspace owns the tensors by name and the fillers by name. \<open>heap\<close> is the store of
  tensor objects the \<^verbatim>\<open>Tensor*\<close> handles point into; \<open>next_addr\<close> is where the next
  tensor is allocated.
\<close>

record (overloaded) ('w, 'v, 'f) Workspace =
  tensor_map :: "string \<rightharpoonup> addr"
  heap :: "addr \<Rightarrow> ('w, 'v) Tensor"
  next_addr :: addr
  filler_map :: "string \<rightharpoonup> 'f"

definition update_tensor ::
  "('w::len, 'v, 'f) Workspace \<Rightarrow> addr \<Rightarrow> (('w, 'v) Tensor \<Rightarrow> ('w, 'v) Tensor) \<Rightarrow> ('w, 'v, 'f) Workspace" where
  "update_tensor ws a f = ws\<lparr>heap := (heap ws)(a := f (heap ws a))\<rparr>"

text \<open>Modelled from the spec: \<^verbatim>\<open>Workspace::CreateTensor\<close>, an idempotent get-or-create.\<close>

definition CreateTensor :: "('w::len, 'v, 'f) Workspace \<Rightarrow> string \<Rightarrow> addr \<times> ('w, 'v, 'f) Workspace" where
  "CreateTensor ws name =
     (case tensor_map ws name of
        Some a \<Rightarrow> (a, ws)
      | None \<Rightarrow>
          (next_addr ws,
           ws\<lparr>tensor_map := (tensor_map ws)(name \<mapsto> next_addr ws),
              heap := (heap ws)(next_addr ws := new_Tensor name),
              next_addr := Suc (next_addr ws)\<rparr>))"

text \<open>
  Modelled from the spec: an input name must resolve to an existing tensor, except
  \<open>''ignore''\<close>, which always resolves.
\<close>

definition GetTensor ::
  "('w::len, 'v, 'f) Workspace \<Rightarrow> string \<Rightarrow> error + addr \<times> ('w, 'v, 'f) Workspace" where
  "GetTensor ws name =
     (case tensor_map ws name of
        Some a \<Rightarrow> Inr (a, ws)
      | None \<Rightarrow>
          if name = ''ignore'' then Inr (CreateTensor ws name)
          else Inl (Fatal [Str ''Tensor('', Str name, Str '') does not exist.'']))"

text \<open>
  Modelled from the spec: \<^verbatim>\<open>Workspace::GetFiller\<close> returns the filler descriptor
  registered under the name, or nothing.
\<close>

definition GetFiller :: "('w::len, 'v, 'f) Workspace \<Rightarrow> string \<Rightarrow> 'f option" where
  "GetFiller ws name = filler_map ws name"

subsection \<open>Operator descriptor\<close>

text \<open>
  Modelled from the spec: an argument is a name and one populated value slot, a scalar or
  a repeated value of a primitive type. A float is carried as its 32-bit pattern.
\<close>

datatype ArgValue =
    Single_int int
  | Single_float "32 word"
  | Single_string string
  | Repeated_int "int list"
  | Repeated_float "32 word list"
  | Repeated_string "string list"

record Argument =
  arg_name :: string
  arg_value :: ArgValue

datatype DeviceType = CPU | CUDA | CUDNN

record DeviceOption =
  device_type :: DeviceType
  device_id :: int

record OperatorDef =
  def_name :: string
  def_type :: string
  def_input :: "string list"
  def_output :: "string list"
  def_device_option :: DeviceOption
  def_debug_mode :: bool
  def_arg :: "Argument list"

section \<open>OperatorBase\<close>

text \<open>
  The members of \<^verbatim>\<open>OperatorBase\<close>, named as in the source without the trailing
  underscore. A \<^verbatim>\<open>const Argument*\<close> is \<open>Some\<close> argument or the null
  pointer \<open>None\<close>; \<^verbatim>\<open>ws_\<close> is the workspace, which the model passes explicitly.
\<close>

record OperatorBase =
  phase :: string
  args :: "string \<rightharpoonup> Argument option"
  inputs :: "addr list"
  outputs :: "addr list"
  op_def :: OperatorDef

text \<open>\<^verbatim>\<open>vector::size\<close> and the unchecked \<^verbatim>\<open>vector::operator[]\<close>.\<close>

definition vector_size :: "'a list \<Rightarrow> size_t" where
  "vector_size xs = of_nat (length xs)"

definition vector_at :: "'a list \<Rightarrow> size_t \<Rightarrow> error + 'a" where
  "vector_at xs i = (if unat i < length xs then Inr (xs ! unat i) else Inl OutOfBoundsRead)"

text \<open>
  \<^verbatim>\<open>input(idx)\<close> and \<^verbatim>\<open>output(idx)\<close>: the two checks compare \<open>idx\<close> with the size cast to
  \<^verbatim>\<open>int\<close>; in \<^verbatim>\<open>idx + inputs_.size()\<close> the index is converted to \<^verbatim>\<open>size_t\<close>.
\<close>

definition input :: "'a OperatorBase_scheme \<Rightarrow> c_int \<Rightarrow> error + addr" where
  "input op idx =
     (if \<not> sint idx < sint (ucast (vector_size (inputs op)) :: c_int) then Inl CHECK_LT_failed
      else if \<not> sint idx \<ge> sint (- (ucast (vector_size (inputs op)) :: c_int)) then Inl CHECK_GE_failed
      else if sint idx \<ge> 0 then vector_at (inputs op) (scast idx)
      else vector_at (inputs op) (scast idx + vector_size (inputs op)))"

definition
  "output (op :: 'a OperatorBase_scheme) (idx :: c_int) =
     (if \<not> sint idx < sint (ucast (vector_size (outputs op)) :: c_int) then Inl CHECK_LT_failed
      else if \<not> sint idx \<ge> sint (- (ucast (vector_size (outputs op)) :: c_int)) then Inl CHECK_GE_failed
      else if sint idx \<ge> 0 then vector_at (outputs op) (scast idx)
      else vector_at (outputs op) (scast idx + vector_size (outputs op)) :: error + addr)"

definition InputSize :: "'a OperatorBase_scheme \<Rightarrow> size_t" where
  "InputSize op = vector_size (inputs op)"

definition OutputSize :: "'a OperatorBase_scheme \<Rightarrow> size_t" where
  "OutputSize op = vector_size (outputs op)"

text \<open>
  \<^verbatim>\<open>arg(name)\<close> is \<^verbatim>\<open>*(args_[name])\<close>: \<^verbatim>\<open>operator[]\<close> of the map inserts a null
  pointer under a missing key, and the result is dereferenced unchecked. The operator is
  returned with its updated map.
\<close>

definition arg :: "'a OperatorBase_scheme \<Rightarrow> string \<Rightarrow> (error + Argument) \<times> 'a OperatorBase_scheme" where
  "arg op name =
     (let op' = (case args op name of
                   None \<Rightarrow> op\<lparr>args := (args op)(name \<mapsto> None)\<rparr>
                 | Some p \<Rightarrow> op)
      in case args op' name of
           Some (Some a) \<Rightarrow> (Inr a, op')
         | _ \<Rightarrow> (Inl NullDereference, op'))"

text \<open>
  Modelled from the spec: \<^verbatim>\<open>GetRepeatedArg<int>(name)\<close> is a pure read of the argument
  map. It returns the repeated values stored under the name, or the empty sequence if the
  name is absent; a stored kind other than repeated integers, or a value outside the range
  of \<^verbatim>\<open>int\<close>, is fatal.
\<close>

definition int_in_range :: "int \<Rightarrow> bool" where
  "int_in_range x = (- (2 ^ 31) \<le> x \<and> x < 2 ^ 31)"

definition GetRepeatedArg_int :: "'a OperatorBase_scheme \<Rightarrow> string \<Rightarrow> error + int list" where
  "GetRepeatedArg_int op name =
     (case args op name of
        None \<Rightarrow> Inr []
      | Some None \<Rightarrow> Inl NullDereference
      | Some (Some a) \<Rightarrow>
          (case arg_value a of
             Repeated_int xs \<Rightarrow> if list_all int_in_range xs then Inr xs else Inl ArgumentOverflow
           | _ \<Rightarrow> Inl ArgumentKindMismatch))"

text \<open>
  Modelled from the spec: the constructor \<^verbatim>\<open>OperatorBase(op_def, ws)\<close>, defined outside the
  header. It stores the descriptor and the initial phase, resolves every input name through
  the workspace, get-or-creates every output, and builds the argument map, rejecting a
  duplicate name.
\<close>

fun resolve_inputs ::
  "('w::len, 'v, 'f) Workspace \<Rightarrow> string list \<Rightarrow> error + addr list \<times> ('w, 'v, 'f) Workspace" where
  "resolve_inputs ws [] = Inr ([], ws)"
| "resolve_inputs ws (n # ns) =
     (case GetTensor ws n of
        Inl e \<Rightarrow> Inl e
      | Inr (a, ws') \<Rightarrow>
          (case resolve_inputs ws' ns of
             Inl e \<Rightarrow> Inl e
           | Inr (as, ws'') \<Rightarrow> Inr (a # as, ws'')))"

fun resolve_outputs ::
  "('w::len, 'v, 'f) Workspace \<Rightarrow> string list \<Rightarrow> addr list \<times> ('w, 'v, 'f) Workspace" where
  "resolve_outputs ws [] = ([], ws)"
| "resolve_outputs ws (n # ns) =
     (case CreateTensor ws n of
        (a, ws') \<Rightarrow> (case resolve_outputs ws' ns of (as, ws'') \<Rightarrow> (a # as, ws'')))"

fun build_args :: "(string \<rightharpoonup> Argument option) \<Rightarrow> Argument list \<Rightarrow> error + (string \<rightharpoonup> Argument option)" where
  "build_args m [] = Inr m"
| "build_args m (a # as) =
     (case m (arg_name a) of
        Some p \<Rightarrow> Inl (Fatal [Str ''duplicate argument '', Str (arg_name a)])
      | None \<Rightarrow> build_args (m(arg_name a \<mapsto> Some a)) as)"

definition OperatorBase_ctor ::
  "OperatorDef \<Rightarrow> ('w::len, 'v, 'f) Workspace \<Rightarrow> error + OperatorBase \<times> ('w, 'v, 'f) Workspace" where
  "OperatorBase_ctor d ws =
     (case build_args Map.empty (def_arg d) of
        Inl e \<Rightarrow> Inl e
      | Inr m \<Rightarrow>
          (case resolve_inputs ws (def_input d) of
             Inl e \<Rightarrow> Inl e
           | Inr (ins, ws') \<Rightarrow>
               (case resolve_outputs ws' (def_output d) of
                  (outs, ws'') \<Rightarrow>
                    Inr (\<lparr>phase = ''TEST'', args = m, inputs = ins, outputs = outs, op_def = d\<rparr>,
                         ws''))))"

section \<open>Operator\<close>

text \<open>
  What the build and the process fix: whether \<^verbatim>\<open>WITH_MPI\<close> is defined, and the rank
  \<^verbatim>\<open>MPI_Comm_rank\<close> reports for this process.
\<close>

record Env =
  WITH_MPI :: bool
  MPI_Comm_rank :: int

text \<open>
  \<^verbatim>\<open>Operator<Context>\<close> adds the device context, built from the device option of the
  descriptor, and the flag \<^verbatim>\<open>allow_run_\<close>.
\<close>

record Operator = OperatorBase +
  ctx :: DeviceOption
  allow_run :: bool

text \<open>
  The methods \<^verbatim>\<open>Run()\<close> calls and the header does not define: the two of the context
  class and the three virtual hooks of the subclass. Each acts on the workspace and may
  raise a fatal condition. The defaults of \<^verbatim>\<open>ShareBeforeRun\<close> and \<^verbatim>\<open>ClearAfterRun\<close> do
  nothing.
\<close>

record 's Methods =
  Context_SwitchToDevice :: "'s \<Rightarrow> error + 's"
  ShareBeforeRun :: "'s \<Rightarrow> error + 's"
  RunOnDevice :: "'s \<Rightarrow> error + 's"
  ClearAfterRun :: "'s \<Rightarrow> error + 's"
  FinishDeviceCompution :: "'s \<Rightarrow> error + 's"

definition default_hook :: "'s \<Rightarrow> error + 's" where
  "default_hook s = Inr s"

text \<open>\<^verbatim>\<open>_MPICheck()\<close>: the loop over \<^verbatim>\<open>allow_ranks\<close> returns at the first match.\<close>

fun rank_allowed :: "int \<Rightarrow> int list \<Rightarrow> bool" where
  "rank_allowed cur_rank [] = False"
| "rank_allowed cur_rank (mpi_rank # rest) =
     (if cur_rank = mpi_rank then True else rank_allowed cur_rank rest)"

definition MPICheck :: "Env \<Rightarrow> 'a OperatorBase_scheme \<Rightarrow> error + bool" where
  "MPICheck env op =
     (if \<not> WITH_MPI env then Inr True
      else case GetRepeatedArg_int op ''mpi_rank'' of
             Inl e \<Rightarrow> Inl e
           | Inr allow_ranks \<Rightarrow>
               if allow_ranks = [] then Inr True
               else Inr (rank_allowed (MPI_Comm_rank env) allow_ranks))"

text \<open>
  The test \<^verbatim>\<open>OutputSize() == 1 && output(0)->name() == "ignore"\<close> of the constructor;
  \<^verbatim>\<open>&&\<close> evaluates \<^verbatim>\<open>output(0)\<close> only when the size is one.
\<close>

definition single_ignored_output ::
  "'a OperatorBase_scheme \<Rightarrow> ('w::len, 'v, 'f) Workspace \<Rightarrow> error + bool" where
  "single_ignored_output op ws =
     (if OutputSize op = 1 then
        (case output op 0 of
           Inl e \<Rightarrow> Inl e
         | Inr a \<Rightarrow> Inr (tensor_name (heap ws a) = ''ignore''))
      else Inr False)"

text \<open>
  The constructor \<^verbatim>\<open>Operator(op_def, ws)\<close>: the base constructor, the context, then
  \<^verbatim>\<open>allow_run_\<close> from the rank gate and the ignored output.
\<close>

definition Operator_ctor ::
  "Env \<Rightarrow> OperatorDef \<Rightarrow> ('w::len, 'v, 'f) Workspace \<Rightarrow> error + Operator \<times> ('w, 'v, 'f) Workspace" where
  "Operator_ctor env d ws =
     (case OperatorBase_ctor d ws of
        Inl e \<Rightarrow> Inl e
      | Inr (base, ws') \<Rightarrow>
          (case MPICheck env base of
             Inl e \<Rightarrow> Inl e
           | Inr gate \<Rightarrow>
               (case single_ignored_output base ws' of
                  Inl e \<Rightarrow> Inl e
                | Inr ign \<Rightarrow>
                    Inr (\<lparr>phase = phase base, args = args base, inputs = inputs base,
                          outputs = outputs base, op_def = op_def base,
                          ctx = def_device_option d,
                          allow_run = ((True \<and> gate) \<and> \<not> ign)\<rparr>,
                         ws'))))"

text \<open>
  Statements in sequence: each step returns the calls it made and either the state it
  leaves or the fatal condition that stopped the process; nothing runs after a fatal
  condition.
\<close>

type_synonym 's outcome = "event list \<times> (error + 's)"

definition call :: "event \<Rightarrow> ('s \<Rightarrow> error + 's) \<Rightarrow> 's \<Rightarrow> 's outcome" where
  "call ev f s = ([ev], f s)"

definition skip :: "'s \<Rightarrow> 's outcome" where
  "skip s = ([], Inr s)"

fun run_steps :: "('s \<Rightarrow> 's outcome) list \<Rightarrow> 's \<Rightarrow> 's outcome" where
  "run_steps [] s = ([], Inr s)"
| "run_steps (f # fs) s =
     (case f s of
        (tr, Inl e) \<Rightarrow> (tr, Inl e)
      | (tr, Inr s') \<Rightarrow> (case run_steps fs s' of (tr', r) \<Rightarrow> (tr @ tr', r)))"

text \<open>
  \<^verbatim>\<open>MemorySwitch()\<close>. One iteration of each loop: the counter \<open>i\<close> is passed to
  \<^verbatim>\<open>input\<close> as an \<^verbatim>\<open>int\<close>, the name of the tensor is read, and the tensor is looked up
  again for the call of \<^verbatim>\<open>SwitchToDevice\<close>.
\<close>

definition MemorySwitch_input ::
  "'a OperatorBase_scheme \<Rightarrow> nat \<Rightarrow> ('w::len, 'v, 'f) Workspace \<Rightarrow> ('w, 'v, 'f) Workspace outcome" where
  "MemorySwitch_input op i ws =
     (case input op (of_nat i) of
        Inl e \<Rightarrow> ([], Inl e)
      | Inr a \<Rightarrow>
          if tensor_name (heap ws a) \<noteq> ''ignore'' then
            (case input op (of_nat i) of
               Inl e \<Rightarrow> ([], Inl e)
             | Inr a' \<Rightarrow> ([E_Tensor_SwitchToDevice a'], Inr (update_tensor ws a' Tensor_SwitchToDevice)))
          else ([], Inr ws))"

definition MemorySwitch_output ::
  "'a OperatorBase_scheme \<Rightarrow> nat \<Rightarrow> ('w::len, 'v, 'f) Workspace \<Rightarrow> ('w, 'v, 'f) Workspace outcome" where
  "MemorySwitch_output op i ws =
     (case output op (of_nat i) of
        Inl e \<Rightarrow> ([], Inl e)
      | Inr a \<Rightarrow>
          if tensor_name (heap ws a) \<noteq> ''ignore'' then
            (case output op (of_nat i) of
               Inl e \<Rightarrow> ([], Inl e)
             | Inr a' \<Rightarrow> ([E_Tensor_SwitchToDevice a'], Inr (update_tensor ws a' Tensor_SwitchToDevice)))
          else ([], Inr ws))"

definition MemorySwitch ::
  "'a OperatorBase_scheme \<Rightarrow> ('w::len, 'v, 'f) Workspace \<Rightarrow> ('w, 'v, 'f) Workspace outcome" where
  "MemorySwitch op =
     run_steps (map (MemorySwitch_input op) [0 ..< length (inputs op)] @
                map (MemorySwitch_output op) [0 ..< length (outputs op)])"

text \<open>\<^verbatim>\<open>Run()\<close>, statement by statement.\<close>

definition Run ::
  "('w::len, 'v, 'f) Workspace Methods \<Rightarrow> Operator \<Rightarrow> ('w, 'v, 'f) Workspace \<Rightarrow> ('w, 'v, 'f) Workspace outcome" where
  "Run m op ws =
     (if \<not> allow_run op then ([], Inr ws)
      else run_steps
        [call E_Context_SwitchToDevice (Context_SwitchToDevice m),
         if \<not> def_debug_mode (op_def op) then call E_ShareBeforeRun (ShareBeforeRun m) else skip,
         run_steps [call E_MemorySwitch Inr, MemorySwitch op],
         call E_RunOnDevice (RunOnDevice m),
         if \<not> def_debug_mode (op_def op) then call E_ClearAfterRun (ClearAfterRun m) else skip,
         call E_FinishDeviceCompution (FinishDeviceCompution m)] ws)"

section \<open>The helper macros\<close>

text \<open>
  \<^verbatim>\<open>TENSOR_FILL(tensor, shape)\<close>, expanded inside a kernel: \<open>tensor\<close> is the address of the
  tensor the macro is given, \<open>CreateFiller\<close> builds the filler of the kernel's element type
  from a descriptor. The filler is looked up a second time after the reshape, as the macro
  does. The requested size is computed in \<^verbatim>\<open>TIndex\<close> arithmetic and printed as signed.
\<close>

definition TENSOR_FILL ::
  "('f \<Rightarrow> ('w::len, 'v) Tensor \<Rightarrow> 'v list) \<Rightarrow> ('w, 'v, 'f) Workspace \<Rightarrow> addr \<Rightarrow> 'w word list \<Rightarrow>
   error + ('w, 'v, 'f) Workspace" where
  "TENSOR_FILL CreateFiller ws tensor shape =
     (if count (heap ws tensor) = 0 then
        (case GetFiller ws (tensor_name (heap ws tensor)) of
           None \<Rightarrow>
             Inl (CHECK_failed
                   [Str ''Tensor('', Str (tensor_name (heap ws tensor)), Str '') is empty. \<newline>'',
                    Str ''may be specify a filler for it ?''])
         | Some p \<Rightarrow>
             (let ws1 = update_tensor ws tensor (\<lambda>t. Reshape t shape)
              in case GetFiller ws1 (tensor_name (heap ws1 tensor)) of
                   None \<Rightarrow> Inl NullDereference
                 | Some fd \<Rightarrow> Inr (update_tensor ws1 tensor (Fill (CreateFiller fd)))))
      else
        (let cnt = foldl (*) 1 shape
         in if cnt \<noteq> count (heap ws tensor) then
              Inl (CHECK_EQ_failed
                    [Str ''\<newline>model request '', Str ''Tensor('',
                     Str (tensor_name (heap ws tensor)), Str '')'s '',
                     Str ''size is '', Num (sint cnt), Str ''\<newline>'',
                     Str ''but now is '', Num (sint (count (heap ws tensor))), Str ''\<newline>'',
                     Str ''may be feed the incorrect Tensor before ?''])
            else Inr (update_tensor ws tensor (\<lambda>t. Reshape t shape))))"

text \<open>
  \<^verbatim>\<open>INIT_MULTIPLIER(ptr_tensor, size)\<close>: the pointer the macro assigns is returned with
  the workspace; \<open>one\<close> is \<^verbatim>\<open>dragon_cast<T, float>(1.0f)\<close>. The comparison is the signed
  one of \<^verbatim>\<open>TIndex\<close>.
\<close>

definition INIT_MULTIPLIER ::
  "'v \<Rightarrow> ('w::len, 'v, 'f) Workspace \<Rightarrow> 'w word \<Rightarrow> addr \<times> ('w, 'v, 'f) Workspace" where
  "INIT_MULTIPLIER one ws sz =
     (case CreateTensor ws ''_t_multiplier'' of
        (ptr_tensor, ws1) \<Rightarrow>
          if sint sz > sint (count (heap ws1 ptr_tensor)) then
            (let ws2 = update_tensor ws1 ptr_tensor (\<lambda>t. Reshape t (replicate 1 sz));
                 ws3 = update_tensor ws2 ptr_tensor (math_Set (nat (sint sz)) one)
             in (ptr_tensor, ws3))
          else (ptr_tensor, ws1))"

text \<open>A sequence of \<^verbatim>\<open>INIT_MULTIPLIER\<close> calls, one after the other, on the same workspace.\<close>

fun INIT_MULTIPLIER_seq :: "'v \<Rightarrow> ('w::len, 'v, 'f) Workspace \<Rightarrow> 'w word list \<Rightarrow> ('w, 'v, 'f) Workspace" where
  "INIT_MULTIPLIER_seq one ws [] = ws"
| "INIT_MULTIPLIER_seq one ws (sz # szs) = INIT_MULTIPLIER_seq one (snd (INIT_MULTIPLIER one ws sz)) szs"

text \<open>
  The count a caller of \<^verbatim>\<open>INIT_MULTIPLIER\<close> finds in the multiplier tensor of a workspace,
  that is, in the tensor \<^verbatim>\<open>CreateTensor("_t_multiplier")\<close> hands out.
\<close>

definition multiplier_count :: "('w::len, 'v, 'f) Workspace \<Rightarrow> 'w word" where
  "multiplier_count ws =
     (case CreateTensor ws ''_t_multiplier'' of (ptr_tensor, ws1) \<Rightarrow> count (heap ws1 ptr_tensor))"

text \<open>
  The tensor a workspace holds under the name \<open>''ignore''\<close>, if it holds one, carries that
  name.
\<close>

definition ignore_named :: "('w::len, 'v, 'f) Workspace \<Rightarrow> bool" where
  "ignore_named ws =
     (case tensor_map ws ''ignore'' of
        None \<Rightarrow> True
      | Some a \<Rightarrow> tensor_name (heap ws a) = ''ignore'')"

section \<open>Concrete operators and workspaces\<close>

text \<open>The inputs on which the theorems below are evaluated.\<close>

definition example_def :: OperatorDef where
  "example_def =
     \<lparr>def_name = ''add1'', def_type = ''Add'', def_input = [''a'', ''b''], def_output = [''c''],
      def_device_option = \<lparr>device_type = CPU, device_id = 0\<rparr>, def_debug_mode = False,
      def_arg = []\<rparr>"

definition example_base :: OperatorBase where
  "example_base =
     \<lparr>phase = ''TEST'', args = Map.empty, inputs = [10, 20, 30], outputs = [40],
      op_def = example_def\<rparr>"

definition example_mpi_arg :: Argument where
  "example_mpi_arg = \<lparr>arg_name = ''mpi_rank'', arg_value = Repeated_int [0]\<rparr>"

definition example_mpi_base :: OperatorBase where
  "example_mpi_base =
     \<lparr>phase = ''TEST'', args = [''mpi_rank'' \<mapsto> Some example_mpi_arg], inputs = [10, 20],
      outputs = [40], op_def = example_def\<lparr>def_arg := [example_mpi_arg]\<rparr>\<rparr>"

definition example_env :: "int \<Rightarrow> Env" where
  "example_env rank = \<lparr>WITH_MPI = True, MPI_Comm_rank = rank\<rparr>"

definition example_ws :: "(64, int, int) Workspace" where
  "example_ws =
     \<lparr>tensor_map = [''w'' \<mapsto> 0, ''x'' \<mapsto> 2],
      heap = (\<lambda>a. new_Tensor [])
        (0 := new_Tensor ''w'',
         2 := \<lparr>tensor_name = ''x'', tensor_dims = [6], tensor_size = 6,
               tensor_data = [1, 2, 3, 4, 5, 6], on_device = False\<rparr>),
      next_addr = 3,
      filler_map = [''w'' \<mapsto> 5]\<rparr>"

text \<open>A constant filler: the descriptor is the value, written to every element.\<close>

definition constant_filler :: "int \<Rightarrow> (64, int) Tensor \<Rightarrow> int list" where
  "constant_filler c t = replicate (unat (count t)) c"

definition example_run_ws :: "(64, int, int) Workspace" where
  "example_run_ws =
     \<lparr>tensor_map = [''a'' \<mapsto> 0, ''ignore'' \<mapsto> 2, ''c'' \<mapsto> 3],
      heap = (\<lambda>a. new_Tensor [])
        (0 := new_Tensor ''a'', 2 := new_Tensor ''ignore'', 3 := new_Tensor ''c''),
      next_addr = 4,
      filler_map = Map.empty\<rparr>"

definition example_op :: Operator where
  "example_op =
     \<lparr>phase = ''TEST'', args = Map.empty, inputs = [0, 2], outputs = [3],
      op_def = example_def\<lparr>def_input := [''a'', ''ignore'']\<rparr>,
      ctx = \<lparr>device_type = CPU, device_id = 0\<rparr>, allow_run = True\<rparr>"

definition normal_methods :: "(64, int, int) Workspace Methods" where
  "normal_methods =
     \<lparr>Context_SwitchToDevice = Inr, ShareBeforeRun = default_hook, RunOnDevice = Inr,
      ClearAfterRun = default_hook, FinishDeviceCompution = Inr\<rparr>"

definition fatal_methods :: "(64, int, int) Workspace Methods" where
  "fatal_methods =
     normal_methods\<lparr>RunOnDevice := \<lambda>ws. Inl (Fatal [Str ''kernel failed''])\<rparr>"

definition ignored_def :: OperatorDef where
  "ignored_def = example_def\<lparr>def_input := [''a''], def_output := [''ignore'']\<rparr>"

definition ignored_op :: Operator where
  "ignored_op =
     \<lparr>phase = ''TEST'', args = Map.empty, inputs = [0], outputs = [2], op_def = ignored_def,
      ctx = \<lparr>device_type = CPU, device_id = 0\<rparr>, allow_run = False\<rparr>"

definition no_mpi :: Env where
  "no_mpi = \<lparr>WITH_MPI = False, MPI_Comm_rank = 0\<rparr>"

section \<open>Index lookup\<close>

text \<open>
  The descriptor lists the inputs and the outputs in repeated fields, whose size is an
  \<^verbatim>\<open>int\<close>: an operator has fewer than \<open>2 ^ 31\<close> of each. On such vectors the casts of
  \<^verbatim>\<open>input\<close> and \<^verbatim>\<open>output\<close> keep the values.
\<close>

lemma sint_vector_size:
  assumes "length v < 2 ^ 31"
  shows "sint (ucast (vector_size v) :: c_int) = int (length v)"
proof -
  from assms have "take_bit 64 (length v) = length v"
    by (simp add: take_bit_nat_eq_self_iff)
  then have "(ucast (vector_size v) :: c_int) = of_nat (length v)"
    by (simp add: vector_size_def unsigned_of_nat)
  moreover have "signed_take_bit 31 (int (length v)) = int (length v)"
    using assms by (simp add: signed_take_bit_int_eq_self)
  ultimately show ?thesis
    by (simp add: signed_of_nat)
qed

lemma sint_neg_vector_size:
  assumes "length v < 2 ^ 31"
  shows "sint (- (ucast (vector_size v) :: c_int)) = - int (length v)"
proof -
  have "signed_take_bit 31 (- int (length v)) = - int (length v)"
    using assms by (simp add: signed_take_bit_int_eq_self)
  then show ?thesis
    using sint_vector_size [OF assms] by (simp add: sint_word_minus)
qed

lemma scast_index: "(scast (idx :: c_int) :: size_t) = word_of_int (sint idx)"
  by (rule scast_eq)

lemma unat_small_index:
  assumes "0 \<le> k" and "k < 2 ^ 31"
  shows "unat (word_of_int k :: size_t) = nat k"
proof -
  have "(2::int) ^ 31 \<le> 2 ^ LENGTH(64)" by simp
  with assms have "k < 2 ^ LENGTH(64)" by linarith
  with assms have "uint (word_of_int k :: size_t) = k"
    by (intro word_of_int_inverse) simp_all
  then show ?thesis by (simp only: unat_eq_nat_uint)
qed

lemma unat_scast_nonneg:
  assumes "0 \<le> sint (idx :: c_int)"
  shows "unat (scast idx :: size_t) = nat (sint idx)"
  using assms sint_lt [of idx] unat_small_index [of "sint idx"]
  by (simp only: scast_index) simp

lemma unat_scast_plus_size:
  assumes "sint (idx :: c_int) < 0" and "- int (length v) \<le> sint idx" and "length v < 2 ^ 31"
  shows "unat (scast idx + vector_size v :: size_t) = nat (sint idx + int (length v))"
proof -
  have "(scast idx + vector_size v :: size_t) = word_of_int (sint idx + int (length v))"
    by (simp only: scast_index vector_size_def of_int_add of_int_of_nat_eq)
  moreover have "0 \<le> sint idx + int (length v)" "sint idx + int (length v) < 2 ^ 31"
    using assms by simp_all
  ultimately show ?thesis
    by (simp only: unat_small_index)
qed

lemma vector_lookup:
  assumes "length v < 2 ^ 31"
  shows "(if \<not> sint (idx :: c_int) < sint (ucast (vector_size v) :: c_int) then Inl CHECK_LT_failed
      else if \<not> sint idx \<ge> sint (- (ucast (vector_size v) :: c_int)) then Inl CHECK_GE_failed
      else if sint idx \<ge> 0 then vector_at v (scast idx)
      else vector_at v (scast idx + vector_size v)) =
     (if int (length v) \<le> sint idx then Inl CHECK_LT_failed
      else if sint idx < - int (length v) then Inl CHECK_GE_failed
      else Inr (v ! nat (if 0 \<le> sint idx then sint idx else sint idx + int (length v))))"
proof -
  consider (hi) "int (length v) \<le> sint idx" | (lo) "sint idx < - int (length v)"
    | (pos) "0 \<le> sint idx" "sint idx < int (length v)"
    | (neg) "sint idx < 0" "- int (length v) \<le> sint idx"
    by linarith
  then show ?thesis
  proof cases
    case hi
    then show ?thesis by (simp add: sint_vector_size [OF assms])
  next
    case lo
    then show ?thesis by (simp add: sint_vector_size [OF assms] sint_neg_vector_size [OF assms])
  next
    case pos
    then show ?thesis
      using unat_scast_nonneg [OF pos(1)]
      by (simp add: sint_vector_size [OF assms] sint_neg_vector_size [OF assms] vector_at_def)
  next
    case neg
    then show ?thesis
      using unat_scast_plus_size [OF neg assms]
      by (simp add: sint_vector_size [OF assms] sint_neg_vector_size [OF assms] vector_at_def)
  qed
qed

lemma input_eq:
  assumes "length (inputs op) < 2 ^ 31"
  shows "input op idx =
     (if int (length (inputs op)) \<le> sint idx then Inl CHECK_LT_failed
      else if sint idx < - int (length (inputs op)) then Inl CHECK_GE_failed
      else Inr (inputs op ! nat (if 0 \<le> sint idx then sint idx else sint idx + int (length (inputs op)))))"
  unfolding input_def by (rule vector_lookup [OF assms])

lemma output_eq:
  assumes "length (outputs op) < 2 ^ 31"
  shows "output op idx =
     (if int (length (outputs op)) \<le> sint idx then Inl CHECK_LT_failed
      else if sint idx < - int (length (outputs op)) then Inl CHECK_GE_failed
      else Inr (outputs op ! nat (if 0 \<le> sint idx then sint idx else sint idx + int (length (outputs op)))))"
  unfolding output_def by (rule vector_lookup [OF assms])

lemma sint_wrap_index:
  assumes "sint (idx :: c_int) < 0" and "- int n \<le> sint idx" and "n < 2 ^ 31"
  shows "sint (idx + of_nat n) = sint idx + int n"
proof -
  have "signed_take_bit 31 (int n) = int n"
    using assms by (simp add: signed_take_bit_int_eq_self)
  then have n: "sint (of_nat n :: c_int) = int n"
    by (simp add: signed_of_nat)
  have "signed_take_bit 31 (sint idx + int n) = sint idx + int n"
    using assms by (intro signed_take_bit_int_eq_self) simp_all
  then show ?thesis
    by (simp add: sint_word_add n)
qed

text \<open>
  Claim C4. For an operator with \<open>n\<close> inputs (resp. outputs) and every \<^verbatim>\<open>int\<close> index
  \<open>i\<close>, \<^verbatim>\<open>input(i)\<close> (resp. \<^verbatim>\<open>output(i)\<close>) succeeds exactly when \<open>- n \<le> i < n\<close>; above the
  range the first check is fatal, below it the second; an index \<open>0 \<le> i < n\<close> returns the
  \<open>i\<close>-th handle, and a negative index in range returns what the index \<open>i + n\<close> returns.
\<close>

theorem input_output_index:
  assumes "length (inputs op) < 2 ^ 31" and "length (outputs op) < 2 ^ 31"
  shows
    "((\<exists>a. input op idx = Inr a) \<longleftrightarrow>
        - int (length (inputs op)) \<le> sint idx \<and> sint idx < int (length (inputs op))) \<and>
     (int (length (inputs op)) \<le> sint idx \<longrightarrow> input op idx = Inl CHECK_LT_failed) \<and>
     (sint idx < - int (length (inputs op)) \<longrightarrow> input op idx = Inl CHECK_GE_failed) \<and>
     (0 \<le> sint idx \<and> sint idx < int (length (inputs op)) \<longrightarrow>
        input op idx = Inr (inputs op ! nat (sint idx))) \<and>
     (- int (length (inputs op)) \<le> sint idx \<and> sint idx < 0 \<longrightarrow>
        input op idx = input op (idx + of_nat (length (inputs op)))) \<and>
     ((\<exists>a. output op idx = Inr a) \<longleftrightarrow>
        - int (length (outputs op)) \<le> sint idx \<and> sint idx < int (length (outputs op))) \<and>
     (int (length (outputs op)) \<le> sint idx \<longrightarrow> output op idx = Inl CHECK_LT_failed) \<and>
     (sint idx < - int (length (outputs op)) \<longrightarrow> output op idx = Inl CHECK_GE_failed) \<and>
     (0 \<le> sint idx \<and> sint idx < int (length (outputs op)) \<longrightarrow>
        output op idx = Inr (outputs op ! nat (sint idx))) \<and>
     (- int (length (outputs op)) \<le> sint idx \<and> sint idx < 0 \<longrightarrow>
        output op idx = output op (idx + of_nat (length (outputs op))))"
proof -
  have wrap_in: "input op idx = input op (idx + of_nat (length (inputs op)))"
    if "- int (length (inputs op)) \<le> sint idx" "sint idx < 0"
    using that sint_wrap_index [OF that(2) that(1) assms(1)]
    by (simp add: input_eq [OF assms(1)])
  have wrap_out: "output op idx = output op (idx + of_nat (length (outputs op)))"
    if "- int (length (outputs op)) \<le> sint idx" "sint idx < 0"
    using that sint_wrap_index [OF that(2) that(1) assms(2)]
    by (simp add: output_eq [OF assms(2)])
  have ins: "(\<exists>a. input op idx = Inr a) \<longleftrightarrow>
        - int (length (inputs op)) \<le> sint idx \<and> sint idx < int (length (inputs op))"
    by (simp add: input_eq [OF assms(1)])
  have outs: "(\<exists>a. output op idx = Inr a) \<longleftrightarrow>
        - int (length (outputs op)) \<le> sint idx \<and> sint idx < int (length (outputs op))"
    by (simp add: output_eq [OF assms(2)])
  show ?thesis
    using wrap_in wrap_out ins outs
    by (simp add: input_eq [OF assms(1)] output_eq [OF assms(2)])
qed

text \<open>The theorem at the index \<open>- 1\<close> of an operator with three inputs and one output.\<close>

theorem input_output_index_witness:
  "length (inputs example_base) < 2 ^ 31 \<and> length (outputs example_base) < 2 ^ 31 \<and>
   - int (length (inputs example_base)) \<le> sint (- 1 :: c_int) \<and> sint (- 1 :: c_int) < 0 \<and>
   (\<exists>a. input example_base (- 1) = Inr a) \<and>
   input example_base (- 1) = input example_base (- 1 + of_nat (length (inputs example_base)))"
proof -
  have h: "length (inputs example_base) < 2 ^ 31" "length (outputs example_base) < 2 ^ 31"
    by (simp_all add: example_base_def)
  have r: "- int (length (inputs example_base)) \<le> sint (- 1 :: c_int)" "sint (- 1 :: c_int) < 0"
    by (simp_all add: example_base_def)
  have lt: "sint (- 1 :: c_int) < int (length (inputs example_base))"
    by (simp add: example_base_def)
  show ?thesis
    using h r lt input_output_index [OF h, of "- 1"] by blast
qed

section \<open>The rank gate\<close>

lemma rank_allowed_iff: "rank_allowed cur_rank ranks \<longleftrightarrow> cur_rank \<in> set ranks"
  by (induction ranks) auto

text \<open>
  Claim C3. The rank gate is true when \<^verbatim>\<open>WITH_MPI\<close> is not defined. When it is defined, the
  gate is true if the argument \<open>''mpi_rank''\<close> is absent (the repeated argument is then read
  as empty) or empty, true if the rank of the process is in the list, and false otherwise.
\<close>

theorem MPICheck_gate:
  "(\<not> WITH_MPI env \<longrightarrow> MPICheck env op = Inr True) \<and>
   (WITH_MPI env \<and> args op ''mpi_rank'' = None \<longrightarrow>
      GetRepeatedArg_int op ''mpi_rank'' = Inr [] \<and> MPICheck env op = Inr True) \<and>
   (WITH_MPI env \<and> GetRepeatedArg_int op ''mpi_rank'' = Inr ranks \<longrightarrow>
      MPICheck env op = Inr (ranks = [] \<or> MPI_Comm_rank env \<in> set ranks)) \<and>
   (WITH_MPI env \<and> args op ''mpi_rank'' = Some (Some a) \<and> arg_value a = Repeated_int ranks \<and>
    list_all int_in_range ranks \<longrightarrow>
      MPICheck env op = Inr (ranks = [] \<or> MPI_Comm_rank env \<in> set ranks))"
  by (auto simp: MPICheck_def GetRepeatedArg_int_def rank_allowed_iff)

text \<open>
  The theorem at the argument \<open>mpi_rank = [0]\<close>: the gate is closed on rank 1 and open on
  rank 0.
\<close>

theorem MPICheck_gate_witness:
  "WITH_MPI (example_env 1) \<and>
   args example_mpi_base ''mpi_rank'' = Some (Some example_mpi_arg) \<and>
   arg_value example_mpi_arg = Repeated_int [0] \<and> list_all int_in_range [0] \<and>
   MPICheck (example_env 1) example_mpi_base = Inr False \<and>
   MPICheck (example_env 0) example_mpi_base = Inr True"
proof -
  have h: "WITH_MPI (example_env r)"
    "args example_mpi_base ''mpi_rank'' = Some (Some example_mpi_arg)"
    "arg_value example_mpi_arg = Repeated_int [0]" "list_all int_in_range [0]" for r
    by (simp_all add: example_env_def example_mpi_base_def example_mpi_arg_def int_in_range_def)
  have r: "MPI_Comm_rank (example_env r) = r" for r
    by (simp add: example_env_def)
  show ?thesis
    using h MPICheck_gate [of "example_env 1" example_mpi_base "[0]" example_mpi_arg]
      MPICheck_gate [of "example_env 0" example_mpi_base "[0]" example_mpi_arg]
    by (simp add: r)
qed

section \<open>Argument lookup\<close>

text \<open>
  Claim C10. \<^verbatim>\<open>arg(name)\<close> checks nothing: it returns the argument stored under the name
  when there is one, and leaves the operator as it was; for an absent name it inserts a
  null pointer under the name and dereferences it, which is not a checked failure with a
  diagnostic.
\<close>

theorem arg_no_presence_check:
  "(args op name = Some (Some a) \<longrightarrow> arg op name = (Inr a, op)) \<and>
   (args op name = None \<longrightarrow>
      arg op name = (Inl NullDereference, op\<lparr>args := (args op)(name \<mapsto> None)\<rparr>)) \<and>
   (args op name = Some None \<longrightarrow> arg op name = (Inl NullDereference, op))"
  by (simp add: arg_def)

text \<open>The theorem at a stored name and at the absent name \<open>''anchor''\<close>.\<close>

theorem arg_no_presence_check_witness:
  "args example_mpi_base ''mpi_rank'' = Some (Some example_mpi_arg) \<and>
   arg example_mpi_base ''mpi_rank'' = (Inr example_mpi_arg, example_mpi_base) \<and>
   args example_mpi_base ''anchor'' = None \<and>
   fst (arg example_mpi_base ''anchor'') = Inl NullDereference \<and>
   args (snd (arg example_mpi_base ''anchor'')) ''anchor'' = Some None"
proof -
  have h: "args example_mpi_base ''mpi_rank'' = Some (Some example_mpi_arg)"
    "args example_mpi_base ''anchor'' = None"
    by (simp_all add: example_mpi_base_def)
  show ?thesis
    using h arg_no_presence_check [of example_mpi_base "''mpi_rank''" example_mpi_arg]
      arg_no_presence_check [of example_mpi_base "''anchor''"]
    by simp
qed

section \<open>Lazy tensor fill\<close>

text \<open>The loop of the macro computes the product of the shape, in \<^verbatim>\<open>TIndex\<close> arithmetic.\<close>

lemma foldl_mult_word: "foldl (*) a xs = a * prod_list (xs :: 'w::len word list)"
  by (induction xs arbitrary: a) (simp_all add: mult.assoc)

lemma shape_product: "foldl (*) 1 shape = prod_list (shape :: 'w::len word list)"
  by (simp add: foldl_mult_word)

text \<open>
  Read as signed integers, the product in \<^verbatim>\<open>TIndex\<close> arithmetic is the product of the
  dimensions whenever that product is a \<^verbatim>\<open>TIndex\<close> value.
\<close>

lemma sint_prod_list:
  "sint (prod_list xs :: 'w::len word) =
     signed_take_bit (LENGTH('w) - 1) (prod_list (map sint xs))"
proof (induction xs)
  case Nil
  have "sint (word_of_int 1 :: 'w word) = signed_take_bit (LENGTH('w) - 1) 1"
    by (rule sint_sbintrunc')
  then show ?case
    by (simp only: of_int_1 list.map prod_list.Nil)
next
  case (Cons x xs)
  have "sint (x * prod_list xs) = signed_take_bit (LENGTH('w) - 1) (sint x * sint (prod_list xs))"
    by (rule sint_word_mult)
  also have "\<dots> = signed_take_bit (LENGTH('w) - 1)
      (sint x * signed_take_bit (LENGTH('w) - 1) (prod_list (map sint xs)))"
    by (simp only: Cons.IH)
  also have "\<dots> = signed_take_bit (LENGTH('w) - 1)
      (signed_take_bit (LENGTH('w) - 1) (sint x) *
       signed_take_bit (LENGTH('w) - 1)
         (signed_take_bit (LENGTH('w) - 1) (prod_list (map sint xs))))"
    by (rule signed_take_bit_mult [symmetric])
  also have "\<dots> = signed_take_bit (LENGTH('w) - 1)
      (signed_take_bit (LENGTH('w) - 1) (sint x) *
       signed_take_bit (LENGTH('w) - 1) (prod_list (map sint xs)))"
    by simp
  also have "\<dots> = signed_take_bit (LENGTH('w) - 1) (sint x * prod_list (map sint xs))"
    by (rule signed_take_bit_mult)
  finally show ?case by simp
qed

lemma shape_product_exact:
  assumes "- (2 ^ (LENGTH('w) - 1)) \<le> prod_list (map sint shape)"
    and "prod_list (map sint shape) < 2 ^ (LENGTH('w) - 1)"
  shows "sint (prod_list shape :: 'w::len word) = prod_list (map sint shape)"
  using assms by (simp add: sint_prod_list signed_take_bit_int_eq_self)

lemma update_tensor_twice:
  "update_tensor (update_tensor ws a f) a g = update_tensor ws a (\<lambda>t. g (f t))"
  by (simp add: update_tensor_def)

lemma heap_update_tensor:
  "heap (update_tensor ws a f) b = (if b = a then f (heap ws a) else heap ws b)"
  by (simp add: update_tensor_def)

lemma GetFiller_update_tensor: "GetFiller (update_tensor ws a f) n = GetFiller ws n"
  by (simp add: update_tensor_def GetFiller_def)

text \<open>
  Claim C6. On a tensor that is not empty (count other than zero, so also every count
  above zero), \<^verbatim>\<open>TENSOR_FILL\<close> with a shape whose product differs from the count is fatal,
  and the diagnostic carries the name of the tensor, the requested size and the actual
  size; with a shape whose product is the count it only reshapes the tensor: the data of
  every tensor is what it was, and so is every other tensor. The product is the one the
  loop of the macro computes; it is the integer product of the dimensions whenever that
  fits \<^verbatim>\<open>TIndex\<close>.
\<close>

theorem TENSOR_FILL_nonempty:
  assumes "count (heap (ws :: ('w::len, 'v, 'f) Workspace) tensor) \<noteq> 0"
  shows
    "(prod_list shape \<noteq> count (heap ws tensor) \<longrightarrow>
        TENSOR_FILL CreateFiller ws tensor shape =
          Inl (CHECK_EQ_failed
                [Str ''\<newline>model request '', Str ''Tensor('',
                 Str (tensor_name (heap ws tensor)), Str '')'s '',
                 Str ''size is '', Num (sint (prod_list shape)), Str ''\<newline>'',
                 Str ''but now is '', Num (sint (count (heap ws tensor))), Str ''\<newline>'',
                 Str ''may be feed the incorrect Tensor before ?''])) \<and>
     (prod_list shape = count (heap ws tensor) \<longrightarrow>
        TENSOR_FILL CreateFiller ws tensor shape =
          Inr (update_tensor ws tensor (\<lambda>t. Reshape t shape)) \<and>
        (\<forall>a. tensor_data (heap (update_tensor ws tensor (\<lambda>t. Reshape t shape)) a) =
              tensor_data (heap ws a)) \<and>
        (\<forall>a. a \<noteq> tensor \<longrightarrow>
              heap (update_tensor ws tensor (\<lambda>t. Reshape t shape)) a = heap ws a) \<and>
        heap (update_tensor ws tensor (\<lambda>t. Reshape t shape)) tensor =
          (heap ws tensor)\<lparr>tensor_dims := shape\<rparr>) \<and>
     (- (2 ^ (LENGTH('w) - 1)) \<le> prod_list (map sint shape) \<and>
      prod_list (map sint shape) < 2 ^ (LENGTH('w) - 1) \<longrightarrow>
        sint (prod_list shape) = prod_list (map sint shape) \<and>
        (prod_list shape = count (heap ws tensor) \<longleftrightarrow>
           prod_list (map sint shape) = sint (count (heap ws tensor))))"
proof -
  have fatal: "TENSOR_FILL CreateFiller ws tensor shape =
          Inl (CHECK_EQ_failed
                [Str ''\<newline>model request '', Str ''Tensor('',
                 Str (tensor_name (heap ws tensor)), Str '')'s '',
                 Str ''size is '', Num (sint (prod_list shape)), Str ''\<newline>'',
                 Str ''but now is '', Num (sint (count (heap ws tensor))), Str ''\<newline>'',
                 Str ''may be feed the incorrect Tensor before ?''])"
    if "prod_list shape \<noteq> count (heap ws tensor)"
    using assms that by (simp add: TENSOR_FILL_def shape_product)
  have reshaped: "TENSOR_FILL CreateFiller ws tensor shape =
          Inr (update_tensor ws tensor (\<lambda>t. Reshape t shape)) \<and>
        (\<forall>a. tensor_data (heap (update_tensor ws tensor (\<lambda>t. Reshape t shape)) a) =
              tensor_data (heap ws a)) \<and>
        (\<forall>a. a \<noteq> tensor \<longrightarrow>
              heap (update_tensor ws tensor (\<lambda>t. Reshape t shape)) a = heap ws a) \<and>
        heap (update_tensor ws tensor (\<lambda>t. Reshape t shape)) tensor =
          (heap ws tensor)\<lparr>tensor_dims := shape\<rparr>"
    if "prod_list shape = count (heap ws tensor)"
    using assms that
    by (simp add: TENSOR_FILL_def shape_product heap_update_tensor Reshape_def count_def)
  have exact: "sint (prod_list shape) = prod_list (map sint shape) \<and>
        (prod_list shape = count (heap ws tensor) \<longleftrightarrow>
           prod_list (map sint shape) = sint (count (heap ws tensor)))"
    if "- (2 ^ (LENGTH('w) - 1)) \<le> prod_list (map sint shape)"
      "prod_list (map sint shape) < 2 ^ (LENGTH('w) - 1)"
    using shape_product_exact [OF that]
      word_eq_iff_signed [of "prod_list shape" "count (heap ws tensor)"]
    by auto
  show ?thesis
    using fatal reshaped exact by blast
qed

text \<open>
  The theorem at a tensor of six elements: the shape \<open>[4]\<close> is fatal with
  \<open>size is 4\<close>, \<open>but now is 6\<close>; the shape \<open>[2, 3]\<close> reshapes and keeps the data.
\<close>

theorem TENSOR_FILL_nonempty_witness:
  "count (heap example_ws 2) \<noteq> 0 \<and> prod_list [4 :: 64 word] \<noteq> count (heap example_ws 2) \<and>
   TENSOR_FILL constant_filler example_ws 2 [4] =
     Inl (CHECK_EQ_failed
           [Str ''\<newline>model request '', Str ''Tensor('', Str ''x'', Str '')'s '',
            Str ''size is '', Num 4, Str ''\<newline>'',
            Str ''but now is '', Num 6, Str ''\<newline>'',
            Str ''may be feed the incorrect Tensor before ?'']) \<and>
   prod_list [2, 3 :: 64 word] = count (heap example_ws 2) \<and>
   tensor_dims (heap (update_tensor example_ws 2 (\<lambda>t. Reshape t [2, 3])) 2) = [2, 3] \<and>
   tensor_data (heap (update_tensor example_ws 2 (\<lambda>t. Reshape t [2, 3])) 2) = [1, 2, 3, 4, 5, 6]"
proof -
  have h: "count (heap example_ws 2) \<noteq> 0" "prod_list [4 :: 64 word] \<noteq> count (heap example_ws 2)"
    "prod_list [2, 3 :: 64 word] = count (heap example_ws 2)"
    "tensor_name (heap example_ws 2) = ''x''" "count (heap example_ws 2) = 6"
    "tensor_data (heap example_ws 2) = [1, 2, 3, 4, 5, 6]"
    by (simp_all add: example_ws_def count_def)
  show ?thesis
    using h(1,2,3) TENSOR_FILL_nonempty [OF h(1), where shape = "[4]" and CreateFiller = constant_filler]
      TENSOR_FILL_nonempty [OF h(1), where shape = "[2, 3]" and CreateFiller = constant_filler]
    by (simp add: h(4,5,6))
qed

text \<open>
  Claim C7. On an empty tensor (count zero), \<^verbatim>\<open>TENSOR_FILL\<close> is fatal if the workspace has
  no filler under the name of the tensor; otherwise it reshapes the tensor to the requested
  shape and populates it with the filler, and afterwards the count of the tensor is the
  product of the requested shape (the integer product whenever that fits \<^verbatim>\<open>TIndex\<close>).
\<close>

theorem TENSOR_FILL_empty:
  assumes "count (heap (ws :: ('w::len, 'v, 'f) Workspace) tensor) = 0"
  shows
    "(GetFiller ws (tensor_name (heap ws tensor)) = None \<longrightarrow>
        TENSOR_FILL CreateFiller ws tensor shape =
          Inl (CHECK_failed
                [Str ''Tensor('', Str (tensor_name (heap ws tensor)), Str '') is empty. \<newline>'',
                 Str ''may be specify a filler for it ?''])) \<and>
     (GetFiller ws (tensor_name (heap ws tensor)) = Some fd \<longrightarrow>
        TENSOR_FILL CreateFiller ws tensor shape =
          Inr (update_tensor ws tensor (\<lambda>t. Fill (CreateFiller fd) (Reshape t shape))) \<and>
        (\<exists>ws'. TENSOR_FILL CreateFiller ws tensor shape = Inr ws' \<and>
           count (heap ws' tensor) = prod_list shape \<and>
           tensor_dims (heap ws' tensor) = shape \<and>
           tensor_data (heap ws' tensor) = CreateFiller fd (Reshape (heap ws tensor) shape) \<and>
           (\<forall>a. a \<noteq> tensor \<longrightarrow> heap ws' a = heap ws a) \<and>
           (- (2 ^ (LENGTH('w) - 1)) \<le> prod_list (map sint shape) \<and>
            prod_list (map sint shape) < 2 ^ (LENGTH('w) - 1) \<longrightarrow>
              sint (count (heap ws' tensor)) = prod_list (map sint shape))))"
proof -
  have missing: "TENSOR_FILL CreateFiller ws tensor shape =
          Inl (CHECK_failed
                [Str ''Tensor('', Str (tensor_name (heap ws tensor)), Str '') is empty. \<newline>'',
                 Str ''may be specify a filler for it ?''])"
    if "GetFiller ws (tensor_name (heap ws tensor)) = None"
    using assms that by (simp add: TENSOR_FILL_def)
  have filled: "TENSOR_FILL CreateFiller ws tensor shape =
          Inr (update_tensor ws tensor (\<lambda>t. Fill (CreateFiller fd) (Reshape t shape)))"
    if "GetFiller ws (tensor_name (heap ws tensor)) = Some fd"
    using assms that
    by (simp add: TENSOR_FILL_def heap_update_tensor Reshape_def GetFiller_update_tensor
        update_tensor_twice)
  have after: "count (heap (update_tensor ws tensor (\<lambda>t. Fill (CreateFiller fd) (Reshape t shape))) tensor) =
        prod_list shape \<and>
      tensor_dims (heap (update_tensor ws tensor (\<lambda>t. Fill (CreateFiller fd) (Reshape t shape))) tensor) =
        shape \<and>
      tensor_data (heap (update_tensor ws tensor (\<lambda>t. Fill (CreateFiller fd) (Reshape t shape))) tensor) =
        CreateFiller fd (Reshape (heap ws tensor) shape) \<and>
      (\<forall>a. a \<noteq> tensor \<longrightarrow>
         heap (update_tensor ws tensor (\<lambda>t. Fill (CreateFiller fd) (Reshape t shape))) a = heap ws a)"
    by (simp add: shape_product heap_update_tensor Reshape_def count_def Fill_def)
  have exact: "sint (count (heap (update_tensor ws tensor
        (\<lambda>t. Fill (CreateFiller fd) (Reshape t shape))) tensor)) = prod_list (map sint shape)"
    if "- (2 ^ (LENGTH('w) - 1)) \<le> prod_list (map sint shape) \<and>
      prod_list (map sint shape) < 2 ^ (LENGTH('w) - 1)"
    using that after shape_product_exact [of shape] by simp
  show ?thesis
    using missing filled after exact by blast
qed

text \<open>
  The theorem at the empty tensor \<open>w\<close> with the constant filler 5 and the shape \<open>[2, 3]\<close>:
  six elements, each 5.
\<close>

theorem TENSOR_FILL_empty_witness:
  "count (heap example_ws 0) = 0 \<and>
   GetFiller example_ws (tensor_name (heap example_ws 0)) = Some 5 \<and>
   (\<exists>ws'. TENSOR_FILL constant_filler example_ws 0 [2, 3] = Inr ws' \<and>
      count (heap ws' 0) = 6 \<and> tensor_data (heap ws' 0) = [5, 5, 5, 5, 5, 5])"
proof -
  have h: "count (heap example_ws 0) = 0"
    "GetFiller example_ws (tensor_name (heap example_ws 0)) = Some 5"
    by (simp_all add: example_ws_def count_def GetFiller_def new_Tensor_def)
  have "replicate 6 (5 :: int) = [5, 5, 5, 5, 5, 5]"
    by (simp add: numeral_eq_Suc)
  then have c: "constant_filler 5 (Reshape (heap example_ws 0) [2, 3]) = [5, 5, 5, 5, 5, 5]"
    by (simp add: constant_filler_def Reshape_def count_def)
  show ?thesis
    using h TENSOR_FILL_empty [OF h(1), where CreateFiller = constant_filler and shape = "[2, 3]" and fd = 5]
    by (auto simp: c)
qed

section \<open>The cached multiplier\<close>

lemma CreateTensor_registered:
  "tensor_map (snd (CreateTensor ws n)) n = Some (fst (CreateTensor ws n))"
  by (simp add: CreateTensor_def split: option.splits)

lemma CreateTensor_existing:
  "tensor_map ws n = Some a \<Longrightarrow> CreateTensor ws n = (a, ws)"
  by (simp add: CreateTensor_def)

lemma tensor_map_update_tensor: "tensor_map (update_tensor ws a f) = tensor_map ws"
  by (simp add: update_tensor_def)

lemma INIT_MULTIPLIER_grow:
  assumes "CreateTensor ws ''_t_multiplier'' = (p, ws1)"
    and "sint (count (heap ws1 p)) < sint sz"
  shows "INIT_MULTIPLIER one ws sz =
     (p, update_tensor ws1 p (\<lambda>t. math_Set (nat (sint sz)) one (Reshape t [sz])))"
  using assms by (simp add: INIT_MULTIPLIER_def update_tensor_twice)

lemma INIT_MULTIPLIER_keep:
  assumes "CreateTensor ws ''_t_multiplier'' = (p, ws1)"
    and "sint sz \<le> sint (count (heap ws1 p))"
  shows "INIT_MULTIPLIER one ws sz = (p, ws1)"
  using assms by (simp add: INIT_MULTIPLIER_def)

lemma multiplier_count_step:
  "multiplier_count (snd (INIT_MULTIPLIER one ws sz)) =
     (if sint (multiplier_count ws) < sint sz then sz else multiplier_count ws)"
proof -
  obtain p ws1 where c: "CreateTensor ws ''_t_multiplier'' = (p, ws1)"
    by (cases "CreateTensor ws ''_t_multiplier''")
  have reg: "tensor_map ws1 ''_t_multiplier'' = Some p"
    using CreateTensor_registered [of ws "''_t_multiplier''"] by (simp add: c)
  show ?thesis
  proof (cases "sint (count (heap ws1 p)) < sint sz")
    case True
    let ?ws3 = "update_tensor ws1 p (\<lambda>t. math_Set (nat (sint sz)) one (Reshape t [sz]))"
    have "CreateTensor ?ws3 ''_t_multiplier'' = (p, ?ws3)"
      by (rule CreateTensor_existing) (simp add: tensor_map_update_tensor reg)
    then have "multiplier_count ?ws3 = sz"
      by (simp add: multiplier_count_def heap_update_tensor count_def math_Set_def Reshape_def)
    with True show ?thesis
      by (simp add: INIT_MULTIPLIER_grow [OF c True] multiplier_count_def c)
  next
    case False
    then have keep: "INIT_MULTIPLIER one ws sz = (p, ws1)"
      by (intro INIT_MULTIPLIER_keep [OF c]) simp
    have "CreateTensor ws1 ''_t_multiplier'' = (p, ws1)"
      by (rule CreateTensor_existing [OF reg])
    with False show ?thesis
      by (simp add: keep multiplier_count_def c)
  qed
qed

lemma multiplier_count_mono:
  "sint (multiplier_count ws) \<le> sint (multiplier_count (INIT_MULTIPLIER_seq one ws szs))"
proof (induction szs arbitrary: ws)
  case Nil
  show ?case by simp
next
  case (Cons sz szs)
  have "sint (multiplier_count ws) \<le> sint (multiplier_count (snd (INIT_MULTIPLIER one ws sz)))"
    by (simp add: multiplier_count_step)
  also have "\<dots> \<le> sint (multiplier_count (INIT_MULTIPLIER_seq one (snd (INIT_MULTIPLIER one ws sz)) szs))"
    by (rule Cons.IH)
  finally show ?case by simp
qed

text \<open>
  Claim C8. \<^verbatim>\<open>INIT_MULTIPLIER\<close> get-or-creates the tensor \<open>''_t_multiplier''\<close>. When the
  requested size exceeds the count it finds, the tensor is reshaped to \<open>[size]\<close> and its
  first \<open>size\<close> elements are set to one; otherwise the workspace is left as the get-or-create
  left it. So over any sequence of calls the count never decreases, and after the sizes
  \<open>n\<close> then \<open>m\<close> with \<open>m \<le> n\<close> the count is what it was after \<open>n\<close>: it is \<open>n\<close> whenever
  the count before the two calls was at most \<open>n\<close>.
\<close>

theorem INIT_MULTIPLIER_cache:
  "fst (INIT_MULTIPLIER one ws sz) = fst (CreateTensor ws ''_t_multiplier'') \<and>
   tensor_map (snd (INIT_MULTIPLIER one ws sz)) ''_t_multiplier'' =
     Some (fst (INIT_MULTIPLIER one ws sz)) \<and>
   (sint (multiplier_count ws) < sint sz \<longrightarrow>
      heap (snd (INIT_MULTIPLIER one ws sz)) (fst (INIT_MULTIPLIER one ws sz)) =
        (heap (snd (CreateTensor ws ''_t_multiplier'')) (fst (CreateTensor ws ''_t_multiplier'')))
          \<lparr>tensor_dims := [sz], tensor_size := sz,
           tensor_data := replicate (nat (sint sz)) one @
             drop (nat (sint sz))
               (tensor_data (heap (snd (CreateTensor ws ''_t_multiplier''))
                  (fst (CreateTensor ws ''_t_multiplier''))))\<rparr> \<and>
      multiplier_count (snd (INIT_MULTIPLIER one ws sz)) = sz) \<and>
   (sint sz \<le> sint (multiplier_count ws) \<longrightarrow>
      snd (INIT_MULTIPLIER one ws sz) = snd (CreateTensor ws ''_t_multiplier'') \<and>
      multiplier_count (snd (INIT_MULTIPLIER one ws sz)) = multiplier_count ws) \<and>
   sint (multiplier_count ws) \<le> sint (multiplier_count (INIT_MULTIPLIER_seq one ws szs)) \<and>
   (sint m \<le> sint n \<longrightarrow>
      multiplier_count (INIT_MULTIPLIER_seq one ws [n, m]) =
        multiplier_count (INIT_MULTIPLIER_seq one ws [n])) \<and>
   (sint m \<le> sint n \<and> sint (multiplier_count ws) \<le> sint n \<longrightarrow>
      multiplier_count (INIT_MULTIPLIER_seq one ws [n, m]) = n)"
proof -
  obtain p ws1 where c: "CreateTensor ws ''_t_multiplier'' = (p, ws1)"
    by (cases "CreateTensor ws ''_t_multiplier''")
  have reg: "tensor_map ws1 ''_t_multiplier'' = Some p"
    using CreateTensor_registered [of ws "''_t_multiplier''"] by (simp add: c)
  have mc: "multiplier_count ws = count (heap ws1 p)"
    by (simp add: multiplier_count_def c)
  have ptr: "fst (INIT_MULTIPLIER one ws sz) = fst (CreateTensor ws ''_t_multiplier'')"
    by (simp add: INIT_MULTIPLIER_def c)
  have registered: "tensor_map (snd (INIT_MULTIPLIER one ws sz)) ''_t_multiplier'' =
      Some (fst (INIT_MULTIPLIER one ws sz))"
    by (simp add: INIT_MULTIPLIER_def c reg tensor_map_update_tensor Let_def)
  have grow: "heap (snd (INIT_MULTIPLIER one ws sz)) (fst (INIT_MULTIPLIER one ws sz)) =
        (heap (snd (CreateTensor ws ''_t_multiplier'')) (fst (CreateTensor ws ''_t_multiplier'')))
          \<lparr>tensor_dims := [sz], tensor_size := sz,
           tensor_data := replicate (nat (sint sz)) one @
             drop (nat (sint sz))
               (tensor_data (heap (snd (CreateTensor ws ''_t_multiplier''))
                  (fst (CreateTensor ws ''_t_multiplier''))))\<rparr>"
    if "sint (multiplier_count ws) < sint sz"
    using that
    by (simp add: INIT_MULTIPLIER_grow [OF c] c mc heap_update_tensor math_Set_def Reshape_def)
  have grown: "multiplier_count (snd (INIT_MULTIPLIER one ws sz)) = sz"
    if "sint (multiplier_count ws) < sint sz"
    using that by (simp add: multiplier_count_step)
  have keep: "snd (INIT_MULTIPLIER one ws sz) = snd (CreateTensor ws ''_t_multiplier'')"
    if "sint sz \<le> sint (multiplier_count ws)"
    using that by (simp add: INIT_MULTIPLIER_keep [OF c] c mc)
  have kept: "multiplier_count (snd (INIT_MULTIPLIER one ws sz)) = multiplier_count ws"
    if "sint sz \<le> sint (multiplier_count ws)"
    using that by (simp add: multiplier_count_step)
  have twice: "multiplier_count (INIT_MULTIPLIER_seq one ws [n, m]) =
        multiplier_count (INIT_MULTIPLIER_seq one ws [n])"
    if "sint m \<le> sint n"
    using that by (simp add: multiplier_count_step)
  have still: "multiplier_count (INIT_MULTIPLIER_seq one ws [n, m]) = n"
    if "sint m \<le> sint n" "sint (multiplier_count ws) \<le> sint n"
  proof (cases "sint (multiplier_count ws) < sint n")
    case True
    with that show ?thesis by (simp add: multiplier_count_step)
  next
    case False
    with that have "sint (multiplier_count ws) = sint n" by simp
    then have "multiplier_count ws = n" by (rule signed_word_eqI)
    with that show ?thesis by (simp add: multiplier_count_step)
  qed
  show ?thesis
    using ptr registered grow grown keep kept twice still multiplier_count_mono [of ws one szs]
    by blast
qed

text \<open>The theorem on a workspace without the tensor, at the sizes 4 then 3.\<close>

theorem INIT_MULTIPLIER_cache_witness:
  "sint (3 :: 64 word) \<le> sint (4 :: 64 word) \<and>
   sint (multiplier_count example_ws) < sint (4 :: 64 word) \<and>
   multiplier_count (INIT_MULTIPLIER_seq (1 :: int) example_ws [4, 3]) = 4 \<and>
   tensor_data (heap (snd (INIT_MULTIPLIER (1 :: int) example_ws 4))
     (fst (INIT_MULTIPLIER (1 :: int) example_ws 4))) = [1, 1, 1, 1]"
proof -
  have c: "CreateTensor example_ws ''_t_multiplier'' =
      (3, example_ws\<lparr>tensor_map := (tensor_map example_ws)(''_t_multiplier'' \<mapsto> 3),
              heap := (heap example_ws)(3 := new_Tensor ''_t_multiplier''),
              next_addr := Suc 3\<rparr>)"
    by (simp add: CreateTensor_def example_ws_def)
  have h: "sint (3 :: 64 word) \<le> sint (4 :: 64 word)"
    "sint (multiplier_count example_ws) < sint (4 :: 64 word)"
    by (simp_all add: multiplier_count_def c count_def new_Tensor_def)
  have r: "replicate 4 (1 :: int) = [1, 1, 1, 1]"
    by (simp add: numeral_eq_Suc)
  show ?thesis
    using h INIT_MULTIPLIER_cache [of 1 example_ws 4 "[]" 3 4]
    by (auto simp: c r new_Tensor_def)
qed

section \<open>Statements in sequence\<close>

lemma run_steps_append:
  "run_steps (fs @ gs) s =
     (case run_steps fs s of
        (tr, Inl e) \<Rightarrow> (tr, Inl e)
      | (tr, Inr s') \<Rightarrow> (case run_steps gs s' of (tr', r) \<Rightarrow> (tr @ tr', r)))"
  by (induction fs arbitrary: s) (auto split: prod.splits sum.splits)

lemma run_steps_events:
  assumes "\<And>f s. f \<in> set fs \<Longrightarrow> set (fst (f s)) \<subseteq> A"
  shows "set (fst (run_steps fs s)) \<subseteq> A"
  using assms
proof (induction fs arbitrary: s)
  case Nil
  show ?case by simp
next
  case (Cons f fs)
  have f: "set (fst (f s)) \<subseteq> A" by (rule Cons.prems) simp
  have fs: "set (fst (run_steps fs s')) \<subseteq> A" for s'
    by (rule Cons.IH) (simp add: Cons.prems)
  show ?case
  proof (cases "f s")
    case (Pair tr r)
    show ?thesis
    proof (cases r)
      case (Inl e)
      with Pair f show ?thesis by simp
    next
      case (Inr s')
      with Pair f fs [of s'] show ?thesis
        by (cases "run_steps fs s'") auto
    qed
  qed
qed

lemma fst_run_steps_append:
  "fst (run_steps (fs @ gs) s) =
     fst (run_steps fs s) @
     (case snd (run_steps fs s) of Inl e \<Rightarrow> [] | Inr s' \<Rightarrow> fst (run_steps gs s'))"
  by (simp add: run_steps_append split: prod.splits sum.splits)

lemma snd_run_steps_append:
  "snd (run_steps (fs @ gs) s) =
     (case snd (run_steps fs s) of Inl e \<Rightarrow> Inl e | Inr s' \<Rightarrow> snd (run_steps gs s'))"
  by (simp add: run_steps_append split: prod.splits sum.splits)

lemma call_events: "set (fst (call ev f s)) \<subseteq> {ev}"
  by (simp add: call_def)

lemma guarded_call_events: "set (fst ((if b then call ev f else skip) s)) \<subseteq> {ev}"
  by (simp add: call_def skip_def)

lemma single_step: "run_steps [f] s = f s"
  by (simp split: prod.splits sum.splits)

section \<open>MemorySwitch\<close>

text \<open>The loop counter, passed to \<^verbatim>\<open>input\<close> and \<^verbatim>\<open>output\<close> as an \<^verbatim>\<open>int\<close>, finds its handle.\<close>

lemma sint_small_nat:
  assumes "i < 2 ^ 31"
  shows "sint (of_nat i :: c_int) = int i"
proof -
  have "signed_take_bit 31 (int i) = int i"
    using assms by (simp add: signed_take_bit_int_eq_self)
  then show ?thesis
    by (simp add: signed_of_nat)
qed

lemma input_of_counter:
  assumes "length (inputs op) < 2 ^ 31" and "i < length (inputs op)"
  shows "input op (of_nat i) = Inr (inputs op ! i)"
proof -
  from assms have "i < 2 ^ 31" by simp
  then have "sint (of_nat i :: c_int) = int i" by (rule sint_small_nat)
  with assms(2) show ?thesis
    by (simp add: input_eq [OF assms(1)])
qed

lemma output_of_counter:
  assumes "length (outputs op) < 2 ^ 31" and "i < length (outputs op)"
  shows "output op (of_nat i) = Inr (outputs op ! i)"
proof -
  from assms have "i < 2 ^ 31" by simp
  then have "sint (of_nat i :: c_int) = int i" by (rule sint_small_nat)
  with assms(2) show ?thesis
    by (simp add: output_eq [OF assms(1)])
qed

lemma MemorySwitch_events:
  "set (fst (MemorySwitch op (ws :: ('w::len, 'v, 'f) Workspace))) \<subseteq> range E_Tensor_SwitchToDevice"
  unfolding MemorySwitch_def
proof (rule run_steps_events)
  fix f :: "('w, 'v, 'f) Workspace \<Rightarrow> ('w, 'v, 'f) Workspace outcome" and s
  assume "f \<in> set (map (MemorySwitch_input op) [0..<length (inputs op)] @
                 map (MemorySwitch_output op) [0..<length (outputs op)])"
  then obtain i where "f = MemorySwitch_input op i \<or> f = MemorySwitch_output op i"
    by auto
  then show "set (fst (f s)) \<subseteq> range E_Tensor_SwitchToDevice"
    by (auto simp: MemorySwitch_input_def MemorySwitch_output_def split: sum.splits if_splits)
qed

text \<open>One iteration of either loop, once the lookup has given the handle \<open>a\<close>.\<close>

lemma MemorySwitch_input_at:
  assumes "length (inputs op) < 2 ^ 31" and "i < length (inputs op)"
  shows "MemorySwitch_input op i =
     (\<lambda>ws. if tensor_name (heap ws (inputs op ! i)) \<noteq> ''ignore''
           then ([E_Tensor_SwitchToDevice (inputs op ! i)],
                 Inr (update_tensor ws (inputs op ! i) Tensor_SwitchToDevice))
           else ([], Inr ws))"
  by (rule ext) (simp add: MemorySwitch_input_def input_of_counter [OF assms])

lemma MemorySwitch_output_at:
  assumes "length (outputs op) < 2 ^ 31" and "i < length (outputs op)"
  shows "MemorySwitch_output op i =
     (\<lambda>ws. if tensor_name (heap ws (outputs op ! i)) \<noteq> ''ignore''
           then ([E_Tensor_SwitchToDevice (outputs op ! i)],
                 Inr (update_tensor ws (outputs op ! i) Tensor_SwitchToDevice))
           else ([], Inr ws))"
  by (rule ext) (simp add: MemorySwitch_output_def output_of_counter [OF assms])

lemma map_counter:
  assumes "\<And>i. i < length xs \<Longrightarrow> f i = g (xs ! i)"
  shows "map f [0..<length xs] = map g xs"
  using assms by (intro nth_equalityI) simp_all

lemma switch_steps:
  "run_steps
     (map (\<lambda>a ws. if tensor_name (heap ws a) \<noteq> ''ignore''
                  then ([E_Tensor_SwitchToDevice a], Inr (update_tensor ws a Tensor_SwitchToDevice))
                  else ([], Inr ws)) as) ws =
   (map E_Tensor_SwitchToDevice (filter (\<lambda>a. tensor_name (heap ws a) \<noteq> ''ignore'') as),
    Inr (ws\<lparr>heap := \<lambda>b. if b \<in> set as \<and> tensor_name (heap ws b) \<noteq> ''ignore''
                         then Tensor_SwitchToDevice (heap ws b) else heap ws b\<rparr>))"
proof (induction as arbitrary: ws)
  case Nil
  show ?case by simp
next
  case (Cons a as)
  show ?case
  proof (cases "tensor_name (heap ws a) \<noteq> ''ignore''")
    case False
    then show ?thesis
      by (auto simp: Cons.IH intro!: arg_cong [where f = "\<lambda>h. ws\<lparr>heap := h\<rparr>"])
  next
    case True
    let ?ws1 = "update_tensor ws a Tensor_SwitchToDevice"
    have names: "tensor_name (heap ?ws1 b) = tensor_name (heap ws b)" for b
      by (simp add: update_tensor_def Tensor_SwitchToDevice_def)
    have switched:
      "(\<lambda>b. if b \<in> set as \<and> tensor_name (heap ws b) \<noteq> ''ignore''
            then Tensor_SwitchToDevice (heap ?ws1 b) else heap ?ws1 b) =
       (\<lambda>b. if (b = a \<or> b \<in> set as) \<and> tensor_name (heap ws b) \<noteq> ''ignore''
            then Tensor_SwitchToDevice (heap ws b) else heap ws b)"
      using True by (auto simp: fun_eq_iff update_tensor_def Tensor_SwitchToDevice_def)
    have overwrite: "(update_tensor ws a f)\<lparr>heap := h\<rparr> = ws\<lparr>heap := h\<rparr>" for f h
      by (simp add: update_tensor_def)
    show ?thesis
      using True by (simp add: Cons.IH names switched overwrite)
  qed
qed

lemma MemorySwitch_eq:
  assumes "length (inputs op) < 2 ^ 31" and "length (outputs op) < 2 ^ 31"
  shows "MemorySwitch op (ws :: ('w::len, 'v, 'f) Workspace) =
     (map E_Tensor_SwitchToDevice
        (filter (\<lambda>a. tensor_name (heap ws a) \<noteq> ''ignore'') (inputs op @ outputs op)),
      Inr (ws\<lparr>heap := \<lambda>b. if b \<in> set (inputs op @ outputs op) \<and> tensor_name (heap ws b) \<noteq> ''ignore''
                         then Tensor_SwitchToDevice (heap ws b) else heap ws b\<rparr>))"
proof -
  let ?g = "\<lambda>a ws. if tensor_name (heap ws a) \<noteq> ''ignore''
                  then ([E_Tensor_SwitchToDevice a], Inr (update_tensor ws a Tensor_SwitchToDevice))
                  else ([], Inr (ws :: ('w, 'v, 'f) Workspace))"
  have "map (MemorySwitch_input op) [0..<length (inputs op)] = map ?g (inputs op)"
    by (rule map_counter) (simp add: MemorySwitch_input_at [OF assms(1)])
  moreover have "map (MemorySwitch_output op) [0..<length (outputs op)] = map ?g (outputs op)"
    by (rule map_counter) (simp add: MemorySwitch_output_at [OF assms(2)])
  ultimately have "MemorySwitch op ws = run_steps (map ?g (inputs op @ outputs op)) ws"
    by (simp add: MemorySwitch_def)
  then show ?thesis
    by (simp only: switch_steps)
qed

lemma before_MemorySwitch_events:
  "set (fst (run_steps
       [call E_Context_SwitchToDevice f, if b then call E_ShareBeforeRun g else skip] s))
     \<subseteq> {E_Context_SwitchToDevice, E_ShareBeforeRun}"
proof (rule run_steps_events)
  fix h :: "'a \<Rightarrow> 'a outcome" and s
  assume "h \<in> set [call E_Context_SwitchToDevice f, if b then call E_ShareBeforeRun g else skip]"
  then show "set (fst (h s)) \<subseteq> {E_Context_SwitchToDevice, E_ShareBeforeRun}"
    using call_events [of E_Context_SwitchToDevice f s]
      guarded_call_events [of b E_ShareBeforeRun g s]
    by auto
qed

lemma after_MemorySwitch_events:
  "set (fst (run_steps
       [call E_RunOnDevice f, if b then call E_ClearAfterRun g else skip,
        call E_FinishDeviceCompution h] s))
     \<subseteq> {E_RunOnDevice, E_ClearAfterRun, E_FinishDeviceCompution}"
proof (rule run_steps_events)
  fix k :: "'a \<Rightarrow> 'a outcome" and s
  assume "k \<in> set [call E_RunOnDevice f, if b then call E_ClearAfterRun g else skip,
        call E_FinishDeviceCompution h]"
  then show "set (fst (k s)) \<subseteq> {E_RunOnDevice, E_ClearAfterRun, E_FinishDeviceCompution}"
    using call_events [of E_RunOnDevice f s] guarded_call_events [of b E_ClearAfterRun g s]
      call_events [of E_FinishDeviceCompution h s]
    by auto
qed

lemma MemorySwitch_call_trace:
  "fst (run_steps [call E_MemorySwitch Inr, MemorySwitch op] s) =
     E_MemorySwitch # fst (MemorySwitch op s)"
  by (simp add: call_def split: prod.splits sum.splits)

lemma MemorySwitch_call_result:
  "snd (run_steps [call E_MemorySwitch Inr, MemorySwitch op] s) = snd (MemorySwitch op s)"
  by (simp add: call_def split: prod.splits sum.splits)

lemma Run_allowed:
  assumes "allow_run op"
  shows "Run m op ws =
     run_steps
       ([call E_Context_SwitchToDevice (Context_SwitchToDevice m),
         if \<not> def_debug_mode (op_def op) then call E_ShareBeforeRun (ShareBeforeRun m) else skip] @
        [run_steps [call E_MemorySwitch Inr, MemorySwitch op]] @
        [call E_RunOnDevice (RunOnDevice m),
         if \<not> def_debug_mode (op_def op) then call E_ClearAfterRun (ClearAfterRun m) else skip,
         call E_FinishDeviceCompution (FinishDeviceCompution m)]) ws"
  using assms by (simp add: Run_def)

lemma Run_tensor_events:
  assumes "E_Tensor_SwitchToDevice a \<in> set (fst (Run m op (ws0 :: ('w::len, 'v, 'f) Workspace)))"
  shows "\<exists>ws2. snd (run_steps
                      [call E_Context_SwitchToDevice (Context_SwitchToDevice m),
                       if \<not> def_debug_mode (op_def op) then call E_ShareBeforeRun (ShareBeforeRun m)
                       else skip] ws0) = Inr ws2 \<and>
               E_Tensor_SwitchToDevice a \<in> set (fst (MemorySwitch op ws2))"
proof -
  define before where "before =
     [call E_Context_SwitchToDevice (Context_SwitchToDevice m),
      if \<not> def_debug_mode (op_def op) then call E_ShareBeforeRun (ShareBeforeRun m) else skip]"
  define switch :: "('w, 'v, 'f) Workspace \<Rightarrow> ('w, 'v, 'f) Workspace outcome"
    where "switch = run_steps [call E_MemorySwitch Inr, MemorySwitch op]"
  define after where "after =
     [call E_RunOnDevice (RunOnDevice m),
      if \<not> def_debug_mode (op_def op) then call E_ClearAfterRun (ClearAfterRun m) else skip,
      call E_FinishDeviceCompution (FinishDeviceCompution m)]"
  have allowed: "allow_run op"
    using assms by (cases "allow_run op") (simp_all add: Run_def)
  have run: "Run m op ws0 = run_steps (before @ [switch] @ after) ws0"
    unfolding before_def switch_def after_def by (rule Run_allowed [OF allowed])
  have not_before: "E_Tensor_SwitchToDevice a \<notin> set (fst (run_steps before ws0))"
    unfolding before_def
    using before_MemorySwitch_events
      [of "Context_SwitchToDevice m" "\<not> def_debug_mode (op_def op)" "ShareBeforeRun m" ws0]
    by auto
  have not_after: "E_Tensor_SwitchToDevice a \<notin> set (fst (run_steps after s))" for s
    unfolding after_def
    using after_MemorySwitch_events
      [of "RunOnDevice m" "\<not> def_debug_mode (op_def op)" "ClearAfterRun m" "FinishDeviceCompution m" s]
    by auto
  have switch: "fst (run_steps [switch] s) = E_MemorySwitch # fst (MemorySwitch op s)" for s
    unfolding switch_def by (simp only: single_step MemorySwitch_call_trace)
  have trace: "fst (Run m op ws0) =
      fst (run_steps before ws0) @
      (case snd (run_steps before ws0) of
         Inl e \<Rightarrow> []
       | Inr s' \<Rightarrow>
           fst (run_steps [switch] s') @
           (case snd (run_steps [switch] s') of
              Inl e \<Rightarrow> []
            | Inr s'' \<Rightarrow> fst (run_steps after s'')))"
    by (simp only: run fst_run_steps_append)
  show ?thesis
  proof (cases "snd (run_steps before ws0)")
    case (Inl e)
    with assms not_before show ?thesis
      by (simp add: trace del: run_steps.simps)
  next
    case (Inr ws2)
    with assms not_before not_after
    have "E_Tensor_SwitchToDevice a \<in> set (fst (MemorySwitch op ws2))"
      by (simp add: trace switch del: run_steps.simps split: sum.splits)
    with Inr show ?thesis
      unfolding before_def by blast
  qed
qed

text \<open>
  Claim C9. \<^verbatim>\<open>MemorySwitch\<close> calls \<^verbatim>\<open>SwitchToDevice\<close> on exactly the input and output
  tensors whose name is not \<open>''ignore''\<close>, inputs first, each in its order; the tensors
  named \<open>''ignore''\<close> are left as they were. Every such call in a \<^verbatim>\<open>Run()\<close> is one of
  \<^verbatim>\<open>MemorySwitch\<close>, on a tensor that is not named \<open>''ignore''\<close> when \<^verbatim>\<open>MemorySwitch\<close> starts.
\<close>

theorem MemorySwitch_skips_ignore:
  assumes "length (inputs op) < 2 ^ 31" and "length (outputs op) < 2 ^ 31"
  shows
    "MemorySwitch op ws =
       (map E_Tensor_SwitchToDevice
          (filter (\<lambda>a. tensor_name (heap ws a) \<noteq> ''ignore'') (inputs op @ outputs op)),
        Inr (ws\<lparr>heap := \<lambda>b. if b \<in> set (inputs op @ outputs op) \<and> tensor_name (heap ws b) \<noteq> ''ignore''
                           then Tensor_SwitchToDevice (heap ws b) else heap ws b\<rparr>)) \<and>
     (\<forall>a. E_Tensor_SwitchToDevice a \<in> set (fst (MemorySwitch op ws)) \<longleftrightarrow>
          a \<in> set (inputs op @ outputs op) \<and> tensor_name (heap ws a) \<noteq> ''ignore'') \<and>
     (\<forall>a. E_Tensor_SwitchToDevice a \<in> set (fst (Run m op ws0)) \<longrightarrow>
          (\<exists>ws2. snd (run_steps
                      [call E_Context_SwitchToDevice (Context_SwitchToDevice m),
                       if \<not> def_debug_mode (op_def op) then call E_ShareBeforeRun (ShareBeforeRun m)
                       else skip] ws0) = Inr ws2 \<and>
                 a \<in> set (inputs op @ outputs op) \<and> tensor_name (heap ws2 a) \<noteq> ''ignore''))"
proof (intro conjI allI impI)
  show "MemorySwitch op ws =
       (map E_Tensor_SwitchToDevice
          (filter (\<lambda>a. tensor_name (heap ws a) \<noteq> ''ignore'') (inputs op @ outputs op)),
        Inr (ws\<lparr>heap := \<lambda>b. if b \<in> set (inputs op @ outputs op) \<and> tensor_name (heap ws b) \<noteq> ''ignore''
                           then Tensor_SwitchToDevice (heap ws b) else heap ws b\<rparr>))"
    by (rule MemorySwitch_eq [OF assms])
next
  fix a
  show "E_Tensor_SwitchToDevice a \<in> set (fst (MemorySwitch op ws)) \<longleftrightarrow>
      a \<in> set (inputs op @ outputs op) \<and> tensor_name (heap ws a) \<noteq> ''ignore''"
    by (auto simp: MemorySwitch_eq [OF assms])
next
  fix a
  assume "E_Tensor_SwitchToDevice a \<in> set (fst (Run m op ws0))"
  then obtain ws2 where
    before: "snd (run_steps
                      [call E_Context_SwitchToDevice (Context_SwitchToDevice m),
                       if \<not> def_debug_mode (op_def op) then call E_ShareBeforeRun (ShareBeforeRun m)
                       else skip] ws0) = Inr ws2"
    and switched: "E_Tensor_SwitchToDevice a \<in> set (fst (MemorySwitch op ws2))"
    using Run_tensor_events by blast
  from switched have "a \<in> set (inputs op @ outputs op) \<and> tensor_name (heap ws2 a) \<noteq> ''ignore''"
    by (auto simp: MemorySwitch_eq [OF assms])
  with before
  show "\<exists>ws2. snd (run_steps
                      [call E_Context_SwitchToDevice (Context_SwitchToDevice m),
                       if \<not> def_debug_mode (op_def op) then call E_ShareBeforeRun (ShareBeforeRun m)
                       else skip] ws0) = Inr ws2 \<and>
                 a \<in> set (inputs op @ outputs op) \<and> tensor_name (heap ws2 a) \<noteq> ''ignore''"
    by (intro exI [of _ ws2] conjI) (assumption, simp_all)
qed

lemma example_MemorySwitch:
  "MemorySwitch example_op example_run_ws =
     ([E_Tensor_SwitchToDevice 0, E_Tensor_SwitchToDevice 3],
      Inr (example_run_ws\<lparr>heap := \<lambda>b. if b \<in> set (inputs example_op @ outputs example_op) \<and>
                tensor_name (heap example_run_ws b) \<noteq> ''ignore''
             then Tensor_SwitchToDevice (heap example_run_ws b) else heap example_run_ws b\<rparr>))"
proof -
  have len: "length (inputs example_op) < 2 ^ 31" "length (outputs example_op) < 2 ^ 31"
    by (simp_all add: example_op_def)
  have "filter (\<lambda>a. tensor_name (heap example_run_ws a) \<noteq> ''ignore'')
      (inputs example_op @ outputs example_op) = [0, 3]"
    by (simp add: example_op_def example_run_ws_def new_Tensor_def)
  then show ?thesis
    by (simp add: MemorySwitch_eq [OF len])
qed

text \<open>
  The theorem at an operator with the inputs \<open>a\<close> and \<open>ignore\<close> and the output \<open>c\<close>: the
  tensor at address 2, named \<open>''ignore''\<close>, is never asked to migrate.
\<close>

theorem MemorySwitch_skips_ignore_witness:
  "length (inputs example_op) < 2 ^ 31 \<and> length (outputs example_op) < 2 ^ 31 \<and>
   inputs example_op @ outputs example_op = [0, 2, 3] \<and>
   tensor_name (heap example_run_ws 2) = ''ignore'' \<and>
   fst (MemorySwitch example_op example_run_ws) =
     [E_Tensor_SwitchToDevice 0, E_Tensor_SwitchToDevice 3] \<and>
   E_Tensor_SwitchToDevice 2 \<notin> set (fst (Run normal_methods example_op example_run_ws))"
proof -
  have len: "length (inputs example_op) < 2 ^ 31" "length (outputs example_op) < 2 ^ 31"
    by (simp_all add: example_op_def)
  have handles: "inputs example_op @ outputs example_op = [0, 2, 3]"
    by (simp add: example_op_def)
  have ignored: "tensor_name (heap example_run_ws 2) = ''ignore''"
    by (simp add: example_run_ws_def new_Tensor_def)
  have kept: "filter (\<lambda>a. tensor_name (heap example_run_ws a) \<noteq> ''ignore'') [0, 2, 3] = [0, 3]"
    by (simp add: example_run_ws_def new_Tensor_def)
  have before: "snd (run_steps
      [call E_Context_SwitchToDevice (Context_SwitchToDevice normal_methods),
       if \<not> def_debug_mode (op_def example_op)
       then call E_ShareBeforeRun (ShareBeforeRun normal_methods) else skip] example_run_ws) =
      Inr example_run_ws"
    by (simp add: call_def skip_def normal_methods_def default_hook_def)
  note t = MemorySwitch_skips_ignore [OF len, of example_run_ws normal_methods example_run_ws]
  from t have "fst (MemorySwitch example_op example_run_ws) =
      map E_Tensor_SwitchToDevice
        (filter (\<lambda>a. tensor_name (heap example_run_ws a) \<noteq> ''ignore'')
           (inputs example_op @ outputs example_op))"
    by (simp only: fst_conv)
  then have switched: "fst (MemorySwitch example_op example_run_ws) =
      [E_Tensor_SwitchToDevice 0, E_Tensor_SwitchToDevice 3]"
    by (simp only: handles kept list.map)
  from t have "E_Tensor_SwitchToDevice 2 \<in> set (fst (Run normal_methods example_op example_run_ws)) \<longrightarrow>
      (\<exists>ws2. snd (run_steps
          [call E_Context_SwitchToDevice (Context_SwitchToDevice normal_methods),
           if \<not> def_debug_mode (op_def example_op)
           then call E_ShareBeforeRun (ShareBeforeRun normal_methods) else skip] example_run_ws) =
          Inr ws2 \<and>
        2 \<in> set (inputs example_op @ outputs example_op) \<and>
        tensor_name (heap ws2 2) \<noteq> ''ignore'')"
    by blast
  then have "E_Tensor_SwitchToDevice 2 \<in> set (fst (Run normal_methods example_op example_run_ws)) \<longrightarrow>
      (\<exists>ws2. Inr example_run_ws = (Inr ws2 :: error + (64, int, int) Workspace) \<and>
        2 \<in> set (inputs example_op @ outputs example_op) \<and>
        tensor_name (heap ws2 2) \<noteq> ''ignore'')"
    by (simp only: before)
  with ignored
  have "E_Tensor_SwitchToDevice 2 \<notin> set (fst (Run normal_methods example_op example_run_ws))"
    by auto
  with switched show ?thesis
    using len handles ignored by blast
qed

section \<open>Run\<close>

text \<open>
  The trace and the result of \<^verbatim>\<open>Run()\<close> when the steps before \<^verbatim>\<open>FinishDeviceCompution\<close>
  return, and when \<^verbatim>\<open>RunOnDevice\<close> raises a fatal condition.
\<close>

lemma Run_returns:
  assumes "allow_run op"
    and "Context_SwitchToDevice m ws = Inr w1"
    and "(if def_debug_mode (op_def op) then Inr w1 else ShareBeforeRun m w1) = Inr w2"
    and "MemorySwitch op w2 = (switched, Inr w3)"
    and "RunOnDevice m w3 = Inr w4"
    and "(if def_debug_mode (op_def op) then Inr w4 else ClearAfterRun m w4) = Inr w5"
    and "FinishDeviceCompution m w5 = r"
  shows "Run m op ws =
     ([E_Context_SwitchToDevice] @
      (if def_debug_mode (op_def op) then [] else [E_ShareBeforeRun]) @
      [E_MemorySwitch] @ switched @ [E_RunOnDevice] @
      (if def_debug_mode (op_def op) then [] else [E_ClearAfterRun]) @
      [E_FinishDeviceCompution], r)"
proof (cases "def_debug_mode (op_def op)")
  case True
  with assms show ?thesis
    by (cases r) (simp_all add: Run_def call_def skip_def)
next
  case False
  with assms show ?thesis
    by (cases r) (simp_all add: Run_def call_def skip_def)
qed

lemma Run_RunOnDevice_fatal:
  assumes "allow_run op"
    and "Context_SwitchToDevice m ws = Inr w1"
    and "(if def_debug_mode (op_def op) then Inr w1 else ShareBeforeRun m w1) = Inr w2"
    and "MemorySwitch op w2 = (switched, Inr w3)"
    and "RunOnDevice m w3 = Inl e"
  shows "Run m op ws =
     ([E_Context_SwitchToDevice] @
      (if def_debug_mode (op_def op) then [] else [E_ShareBeforeRun]) @
      [E_MemorySwitch] @ switched @ [E_RunOnDevice], Inl e)"
proof (cases "def_debug_mode (op_def op)")
  case True
  with assms show ?thesis
    by (simp add: Run_def call_def skip_def)
next
  case False
  with assms show ?thesis
    by (simp add: Run_def call_def skip_def)
qed

lemma Run_prefix:
  assumes "allow_run op"
  shows "prefix (fst (Run m op ws))
     ([E_Context_SwitchToDevice] @
      (if def_debug_mode (op_def op) then [] else [E_ShareBeforeRun]) @
      [E_MemorySwitch] @
      (case snd (run_steps
                  [call E_Context_SwitchToDevice (Context_SwitchToDevice m),
                   if \<not> def_debug_mode (op_def op) then call E_ShareBeforeRun (ShareBeforeRun m)
                   else skip] ws) of
         Inl e \<Rightarrow> []
       | Inr w2 \<Rightarrow> fst (MemorySwitch op w2)) @
      [E_RunOnDevice] @
      (if def_debug_mode (op_def op) then [] else [E_ClearAfterRun]) @
      [E_FinishDeviceCompution])"
  using assms
  by (cases "def_debug_mode (op_def op)")
    (auto simp: Run_def call_def skip_def split: sum.splits prod.splits)


lemma Run_prefix_events:
  assumes "allow_run op"
  shows "\<exists>switched. set switched \<subseteq> range E_Tensor_SwitchToDevice \<and>
     prefix (fst (Run m op ws))
       ([E_Context_SwitchToDevice] @
        (if def_debug_mode (op_def op) then [] else [E_ShareBeforeRun]) @
        [E_MemorySwitch] @ switched @ [E_RunOnDevice] @
        (if def_debug_mode (op_def op) then [] else [E_ClearAfterRun]) @
        [E_FinishDeviceCompution])"
proof -
  let ?switched = "case snd (run_steps
                  [call E_Context_SwitchToDevice (Context_SwitchToDevice m),
                   if \<not> def_debug_mode (op_def op) then call E_ShareBeforeRun (ShareBeforeRun m)
                   else skip] ws) of
         Inl e \<Rightarrow> []
       | Inr w2 \<Rightarrow> fst (MemorySwitch op w2)"
  have "set ?switched \<subseteq> range E_Tensor_SwitchToDevice"
    using MemorySwitch_events [of op] by (cases "snd (run_steps
                  [call E_Context_SwitchToDevice (Context_SwitchToDevice m),
                   if \<not> def_debug_mode (op_def op) then call E_ShareBeforeRun (ShareBeforeRun m)
                   else skip] ws)") (simp_all del: run_steps.simps)
  then show ?thesis
    using Run_prefix [OF assms, of m ws] by (intro exI [of _ ?switched] conjI)
qed

lemma Run_finish_last:
  assumes "allow_run op"
  shows "E_FinishDeviceCompution \<notin> set (fst (Run m op ws)) \<or>
     (\<exists>pre. fst (Run m op ws) = pre @ [E_FinishDeviceCompution] \<and>
            E_FinishDeviceCompution \<notin> set pre)"
proof -
  from Run_prefix_events [OF assms, of m ws] obtain switched where
    sw: "set switched \<subseteq> range E_Tensor_SwitchToDevice" and
    pr: "prefix (fst (Run m op ws))
       ([E_Context_SwitchToDevice] @
        (if def_debug_mode (op_def op) then [] else [E_ShareBeforeRun]) @
        [E_MemorySwitch] @ switched @ [E_RunOnDevice] @
        (if def_debug_mode (op_def op) then [] else [E_ClearAfterRun]) @
        [E_FinishDeviceCompution])"
    by blast
  define pre where "pre =
     [E_Context_SwitchToDevice] @
     (if def_debug_mode (op_def op) then [] else [E_ShareBeforeRun]) @
     [E_MemorySwitch] @ switched @ [E_RunOnDevice] @
     (if def_debug_mode (op_def op) then [] else [E_ClearAfterRun])"
  have not_in: "E_FinishDeviceCompution \<notin> set pre"
    using sw by (auto simp: pre_def)
  from pr have "prefix (fst (Run m op ws)) (pre @ [E_FinishDeviceCompution])"
    by (simp add: pre_def)
  then have "fst (Run m op ws) = pre @ [E_FinishDeviceCompution] \<or> prefix (fst (Run m op ws)) pre"
    by (simp only: prefix_snoc)
  then show ?thesis
  proof
    assume "fst (Run m op ws) = pre @ [E_FinishDeviceCompution]"
    with not_in show ?thesis by blast
  next
    assume "prefix (fst (Run m op ws)) pre"
    then have "set (fst (Run m op ws)) \<subseteq> set pre"
      by (rule set_mono_prefix)
    with not_in show ?thesis by blast
  qed
qed

lemma Run_returned_finished:
  assumes "allow_run op" and "snd (Run m op ws) = Inr w'"
  shows "E_FinishDeviceCompution \<in> set (fst (Run m op ws))"
  using assms
  by (cases "def_debug_mode (op_def op)")
    (auto simp: Run_def call_def skip_def split: sum.splits prod.splits)

lemma example_switched_ws:
  "MemorySwitch example_op example_run_ws =
     ([E_Tensor_SwitchToDevice 0, E_Tensor_SwitchToDevice 3], Inr w3) \<longleftrightarrow>
   w3 = example_run_ws\<lparr>heap := \<lambda>b. if b \<in> set (inputs example_op @ outputs example_op) \<and>
                tensor_name (heap example_run_ws b) \<noteq> ''ignore''
             then Tensor_SwitchToDevice (heap example_run_ws b) else heap example_run_ws b\<rparr>"
  by (auto simp: example_MemorySwitch)

lemma example_steps:
  "allow_run example_op"
  "\<not> def_debug_mode (op_def example_op)"
  "Context_SwitchToDevice normal_methods example_run_ws = Inr example_run_ws"
  "Context_SwitchToDevice fatal_methods example_run_ws = Inr example_run_ws"
  "(if def_debug_mode (op_def example_op) then Inr example_run_ws
    else ShareBeforeRun normal_methods example_run_ws) = Inr example_run_ws"
  "(if def_debug_mode (op_def example_op) then Inr example_run_ws
    else ShareBeforeRun fatal_methods example_run_ws) = Inr example_run_ws"
  "RunOnDevice normal_methods w = Inr w"
  "RunOnDevice fatal_methods w = Inl (Fatal [Str ''kernel failed''])"
  "(if def_debug_mode (op_def example_op) then Inr w else ClearAfterRun normal_methods w) = Inr w"
  "FinishDeviceCompution normal_methods w = Inr w"
  by (simp_all add: example_op_def example_def_def normal_methods_def fatal_methods_def
      default_hook_def)

text \<open>
  Claim C1. When \<^verbatim>\<open>allow_run_\<close> is false, \<^verbatim>\<open>Run()\<close> returns at once: no call is made and
  the workspace is what it was. When it is true and every call returns, \<^verbatim>\<open>Run()\<close> makes
  exactly these calls in this order: the context's \<^verbatim>\<open>SwitchToDevice\<close>, \<^verbatim>\<open>ShareBeforeRun\<close>
  unless in debug mode, \<^verbatim>\<open>MemorySwitch\<close> (with its tensor migrations), \<^verbatim>\<open>RunOnDevice\<close>,
  \<^verbatim>\<open>ClearAfterRun\<close> unless in debug mode, \<^verbatim>\<open>FinishDeviceCompution\<close>. In every permitted
  run, also one stopped by a fatal condition, the calls made are an initial part of that
  sequence.
\<close>

theorem Run_orchestration:
  "(\<not> allow_run op \<longrightarrow> Run m op ws = ([], Inr ws)) \<and>
   (allow_run op \<and>
    Context_SwitchToDevice m ws = Inr w1 \<and>
    (if def_debug_mode (op_def op) then Inr w1 else ShareBeforeRun m w1) = Inr w2 \<and>
    MemorySwitch op w2 = (switched, Inr w3) \<and>
    RunOnDevice m w3 = Inr w4 \<and>
    (if def_debug_mode (op_def op) then Inr w4 else ClearAfterRun m w4) = Inr w5 \<and>
    FinishDeviceCompution m w5 = Inr w6 \<longrightarrow>
      Run m op ws =
        ([E_Context_SwitchToDevice] @
         (if def_debug_mode (op_def op) then [] else [E_ShareBeforeRun]) @
         [E_MemorySwitch] @ switched @ [E_RunOnDevice] @
         (if def_debug_mode (op_def op) then [] else [E_ClearAfterRun]) @
         [E_FinishDeviceCompution], Inr w6)) \<and>
   (allow_run op \<longrightarrow>
      (\<exists>tensors. set tensors \<subseteq> range E_Tensor_SwitchToDevice \<and>
         prefix (fst (Run m op ws))
           ([E_Context_SwitchToDevice] @
            (if def_debug_mode (op_def op) then [] else [E_ShareBeforeRun]) @
            [E_MemorySwitch] @ tensors @ [E_RunOnDevice] @
            (if def_debug_mode (op_def op) then [] else [E_ClearAfterRun]) @
            [E_FinishDeviceCompution])))"
proof (intro conjI impI)
  assume "\<not> allow_run op"
  then show "Run m op ws = ([], Inr ws)"
    by (simp add: Run_def)
next
  assume "allow_run op \<and>
    Context_SwitchToDevice m ws = Inr w1 \<and>
    (if def_debug_mode (op_def op) then Inr w1 else ShareBeforeRun m w1) = Inr w2 \<and>
    MemorySwitch op w2 = (switched, Inr w3) \<and>
    RunOnDevice m w3 = Inr w4 \<and>
    (if def_debug_mode (op_def op) then Inr w4 else ClearAfterRun m w4) = Inr w5 \<and>
    FinishDeviceCompution m w5 = Inr w6"
  then show "Run m op ws =
        ([E_Context_SwitchToDevice] @
         (if def_debug_mode (op_def op) then [] else [E_ShareBeforeRun]) @
         [E_MemorySwitch] @ switched @ [E_RunOnDevice] @
         (if def_debug_mode (op_def op) then [] else [E_ClearAfterRun]) @
         [E_FinishDeviceCompution], Inr w6)"
    by (intro Run_returns) blast+
next
  assume "allow_run op"
  then show "\<exists>tensors. set tensors \<subseteq> range E_Tensor_SwitchToDevice \<and>
         prefix (fst (Run m op ws))
           ([E_Context_SwitchToDevice] @
            (if def_debug_mode (op_def op) then [] else [E_ShareBeforeRun]) @
            [E_MemorySwitch] @ tensors @ [E_RunOnDevice] @
            (if def_debug_mode (op_def op) then [] else [E_ClearAfterRun]) @
            [E_FinishDeviceCompution])"
    by (rule Run_prefix_events)
qed

text \<open>
  The theorem at an operator outside debug mode whose hooks return: eight calls in order;
  and at the same operator with \<^verbatim>\<open>allow_run_\<close> false: none.
\<close>

theorem Run_orchestration_witness:
  "allow_run example_op \<and> \<not> def_debug_mode (op_def example_op) \<and>
   fst (Run normal_methods example_op example_run_ws) =
     [E_Context_SwitchToDevice, E_ShareBeforeRun, E_MemorySwitch,
      E_Tensor_SwitchToDevice 0, E_Tensor_SwitchToDevice 3,
      E_RunOnDevice, E_ClearAfterRun, E_FinishDeviceCompution] \<and>
   \<not> allow_run (example_op\<lparr>allow_run := False\<rparr>) \<and>
   Run normal_methods (example_op\<lparr>allow_run := False\<rparr>) example_run_ws = ([], Inr example_run_ws)"
proof -
  define w3 where "w3 = example_run_ws\<lparr>heap := \<lambda>b. if b \<in> set (inputs example_op @ outputs example_op) \<and>
                tensor_name (heap example_run_ws b) \<noteq> ''ignore''
             then Tensor_SwitchToDevice (heap example_run_ws b) else heap example_run_ws b\<rparr>"
  have h: "allow_run example_op" "\<not> def_debug_mode (op_def example_op)"
    "Context_SwitchToDevice normal_methods example_run_ws = Inr example_run_ws"
    "(if def_debug_mode (op_def example_op) then Inr example_run_ws
      else ShareBeforeRun normal_methods example_run_ws) = Inr example_run_ws"
    "MemorySwitch example_op example_run_ws =
       ([E_Tensor_SwitchToDevice 0, E_Tensor_SwitchToDevice 3], Inr w3)"
    "RunOnDevice normal_methods w3 = Inr w3"
    "(if def_debug_mode (op_def example_op) then Inr w3 else ClearAfterRun normal_methods w3) = Inr w3"
    "FinishDeviceCompution normal_methods w3 = Inr w3"
    "\<not> allow_run (example_op\<lparr>allow_run := False\<rparr>)"
    by (simp_all add: example_switched_ws w3_def)
      (simp_all add: example_op_def example_def_def normal_methods_def default_hook_def)
  from h Run_orchestration [of example_op normal_methods example_run_ws example_run_ws
      example_run_ws "[E_Tensor_SwitchToDevice 0, E_Tensor_SwitchToDevice 3]" w3 w3 w3 w3]
  have "Run normal_methods example_op example_run_ws =
     ([E_Context_SwitchToDevice] @
         (if def_debug_mode (op_def example_op) then [] else [E_ShareBeforeRun]) @
         [E_MemorySwitch] @ [E_Tensor_SwitchToDevice 0, E_Tensor_SwitchToDevice 3] @ [E_RunOnDevice] @
         (if def_debug_mode (op_def example_op) then [] else [E_ClearAfterRun]) @
         [E_FinishDeviceCompution], Inr w3)"
    by blast
  with h(2) have "fst (Run normal_methods example_op example_run_ws) =
     [E_Context_SwitchToDevice, E_ShareBeforeRun, E_MemorySwitch,
      E_Tensor_SwitchToDevice 0, E_Tensor_SwitchToDevice 3,
      E_RunOnDevice, E_ClearAfterRun, E_FinishDeviceCompution]"
    by simp
  moreover from h(9) Run_orchestration [of "example_op\<lparr>allow_run := False\<rparr>" normal_methods example_run_ws]
  have "Run normal_methods (example_op\<lparr>allow_run := False\<rparr>) example_run_ws = ([], Inr example_run_ws)"
    by blast
  ultimately show ?thesis
    using h(1,2,9) by blast
qed

text \<open>
  Claim C5, as stated, fails: \<^verbatim>\<open>Run()\<close> has no scoped release around the kernel, so a
  fatal condition in \<^verbatim>\<open>RunOnDevice\<close> stops the process before the synchronization. On an
  operator that may run and whose kernel is fatal, the last call is \<^verbatim>\<open>RunOnDevice\<close> and
  \<^verbatim>\<open>FinishDeviceCompution\<close> is not called.
\<close>

theorem Run_finish_after_fatal_counterexample:
  "allow_run example_op \<and>
   Run fatal_methods example_op example_run_ws =
     ([E_Context_SwitchToDevice, E_ShareBeforeRun, E_MemorySwitch,
       E_Tensor_SwitchToDevice 0, E_Tensor_SwitchToDevice 3, E_RunOnDevice],
      Inl (Fatal [Str ''kernel failed''])) \<and>
   count_list (fst (Run fatal_methods example_op example_run_ws)) E_FinishDeviceCompution \<noteq> 1"
proof -
  have "Run fatal_methods example_op example_run_ws =
     ([E_Context_SwitchToDevice] @
      (if def_debug_mode (op_def example_op) then [] else [E_ShareBeforeRun]) @
      [E_MemorySwitch] @ [E_Tensor_SwitchToDevice 0, E_Tensor_SwitchToDevice 3] @ [E_RunOnDevice],
      Inl (Fatal [Str ''kernel failed'']))"
    by (rule Run_RunOnDevice_fatal
        [OF example_steps(1) example_steps(4) example_steps(6) example_MemorySwitch example_steps(8)])
  then have "Run fatal_methods example_op example_run_ws =
     ([E_Context_SwitchToDevice, E_ShareBeforeRun, E_MemorySwitch,
       E_Tensor_SwitchToDevice 0, E_Tensor_SwitchToDevice 3, E_RunOnDevice],
      Inl (Fatal [Str ''kernel failed'']))"
    by (simp add: example_steps(2))
  then show ?thesis
    by (simp add: example_steps(1))
qed

text \<open>
  Claim C5, amended. On every permitted invocation of \<^verbatim>\<open>Run()\<close>,
  \<^verbatim>\<open>FinishDeviceCompution\<close> is called at most once, and when it is called it is the last
  call. It is called exactly once whenever \<^verbatim>\<open>Run()\<close> returns, and more generally whenever
  the five steps before it return. When \<^verbatim>\<open>RunOnDevice\<close> raises a fatal condition, the
  process stops with that condition and \<^verbatim>\<open>FinishDeviceCompution\<close> is not called.
\<close>

theorem Run_finish_when_steps_return:
  assumes "allow_run op"
  shows
    "count_list (fst (Run m op ws)) E_FinishDeviceCompution \<le> 1 \<and>
     (E_FinishDeviceCompution \<in> set (fst (Run m op ws)) \<longrightarrow>
        last (fst (Run m op ws)) = E_FinishDeviceCompution) \<and>
     (\<forall>w'. snd (Run m op ws) = Inr w' \<longrightarrow>
        count_list (fst (Run m op ws)) E_FinishDeviceCompution = 1) \<and>
     (Context_SwitchToDevice m ws = Inr w1 \<and>
      (if def_debug_mode (op_def op) then Inr w1 else ShareBeforeRun m w1) = Inr w2 \<and>
      MemorySwitch op w2 = (switched, Inr w3) \<and>
      RunOnDevice m w3 = Inr w4 \<and>
      (if def_debug_mode (op_def op) then Inr w4 else ClearAfterRun m w4) = Inr w5 \<longrightarrow>
        count_list (fst (Run m op ws)) E_FinishDeviceCompution = 1 \<and>
        snd (Run m op ws) = FinishDeviceCompution m w5) \<and>
     (Context_SwitchToDevice m ws = Inr w1 \<and>
      (if def_debug_mode (op_def op) then Inr w1 else ShareBeforeRun m w1) = Inr w2 \<and>
      MemorySwitch op w2 = (switched, Inr w3) \<and>
      RunOnDevice m w3 = Inl e \<longrightarrow>
        count_list (fst (Run m op ws)) E_FinishDeviceCompution = 0 \<and>
        snd (Run m op ws) = Inl e)"
proof (intro conjI impI allI)
  note cases = Run_finish_last [OF assms, of m ws]
  show "count_list (fst (Run m op ws)) E_FinishDeviceCompution \<le> 1"
    using cases by (auto simp: count_list_0_iff)
  show "last (fst (Run m op ws)) = E_FinishDeviceCompution"
    if "E_FinishDeviceCompution \<in> set (fst (Run m op ws))"
    using cases that by auto
  show "count_list (fst (Run m op ws)) E_FinishDeviceCompution = 1"
    if "snd (Run m op ws) = Inr w'" for w'
    using cases Run_returned_finished [OF assms that] by (auto simp: count_list_0_iff)
next
  assume h: "Context_SwitchToDevice m ws = Inr w1 \<and>
      (if def_debug_mode (op_def op) then Inr w1 else ShareBeforeRun m w1) = Inr w2 \<and>
      MemorySwitch op w2 = (switched, Inr w3) \<and>
      RunOnDevice m w3 = Inr w4 \<and>
      (if def_debug_mode (op_def op) then Inr w4 else ClearAfterRun m w4) = Inr w5"
  have run: "Run m op ws =
     ([E_Context_SwitchToDevice] @
      (if def_debug_mode (op_def op) then [] else [E_ShareBeforeRun]) @
      [E_MemorySwitch] @ switched @ [E_RunOnDevice] @
      (if def_debug_mode (op_def op) then [] else [E_ClearAfterRun]) @
      [E_FinishDeviceCompution], FinishDeviceCompution m w5)"
    using h by (intro Run_returns [OF assms _ _ _ _ _ refl]) blast+
  have "E_FinishDeviceCompution \<notin> set switched"
    using h MemorySwitch_events [of op w2] by auto
  then show "count_list (fst (Run m op ws)) E_FinishDeviceCompution = 1"
    by (simp add: run count_list_0_iff)
  show "snd (Run m op ws) = FinishDeviceCompution m w5"
    by (simp add: run)
next
  assume h: "Context_SwitchToDevice m ws = Inr w1 \<and>
      (if def_debug_mode (op_def op) then Inr w1 else ShareBeforeRun m w1) = Inr w2 \<and>
      MemorySwitch op w2 = (switched, Inr w3) \<and>
      RunOnDevice m w3 = Inl e"
  have run: "Run m op ws =
     ([E_Context_SwitchToDevice] @
      (if def_debug_mode (op_def op) then [] else [E_ShareBeforeRun]) @
      [E_MemorySwitch] @ switched @ [E_RunOnDevice], Inl e)"
    using assms h by (intro Run_RunOnDevice_fatal) blast+
  have "E_FinishDeviceCompution \<notin> set switched"
    using h MemorySwitch_events [of op w2] by auto
  then show "count_list (fst (Run m op ws)) E_FinishDeviceCompution = 0"
    by (simp add: run count_list_0_iff)
  show "snd (Run m op ws) = Inl e"
    by (simp add: run)
qed

text \<open>
  The amended theorem at the operator above: one synchronization, last, when the hooks
  return; none when the kernel is fatal.
\<close>

theorem Run_finish_when_steps_return_witness:
  "allow_run example_op \<and>
   Context_SwitchToDevice normal_methods example_run_ws = Inr example_run_ws \<and>
   count_list (fst (Run normal_methods example_op example_run_ws)) E_FinishDeviceCompution = 1 \<and>
   last (fst (Run normal_methods example_op example_run_ws)) = E_FinishDeviceCompution \<and>
   count_list (fst (Run fatal_methods example_op example_run_ws)) E_FinishDeviceCompution = 0"
proof -
  obtain w3 where ms: "MemorySwitch example_op example_run_ws =
      ([E_Tensor_SwitchToDevice 0, E_Tensor_SwitchToDevice 3], Inr w3)"
    using example_MemorySwitch by blast
  note normal = Run_finish_when_steps_return [OF example_steps(1),
      where m = normal_methods and ws = example_run_ws and ?w1.0 = example_run_ws
        and ?w2.0 = example_run_ws and ?w3.0 = w3 and ?w4.0 = w3 and ?w5.0 = w3
        and switched = "[E_Tensor_SwitchToDevice 0, E_Tensor_SwitchToDevice 3]"]
  note fatal = Run_finish_when_steps_return [OF example_steps(1),
      where m = fatal_methods and ws = example_run_ws and ?w1.0 = example_run_ws
        and ?w2.0 = example_run_ws and ?w3.0 = w3
        and switched = "[E_Tensor_SwitchToDevice 0, E_Tensor_SwitchToDevice 3]"
        and e = "Fatal [Str ''kernel failed'']"]
  have once: "count_list (fst (Run normal_methods example_op example_run_ws)) E_FinishDeviceCompution = 1"
    using normal ms example_steps(3,5,7,9) by blast
  then have "E_FinishDeviceCompution \<in> set (fst (Run normal_methods example_op example_run_ws))"
    by (metis count_list_0_iff zero_neq_one)
  with normal have "last (fst (Run normal_methods example_op example_run_ws)) = E_FinishDeviceCompution"
    by blast
  moreover have "count_list (fst (Run fatal_methods example_op example_run_ws)) E_FinishDeviceCompution = 0"
    using fatal ms example_steps(4,6,8) by blast
  ultimately show ?thesis
    using once example_steps(1,3) by blast
qed

section \<open>Construction\<close>

text \<open>
  The base constructor keeps the name of the tensor registered as \<open>''ignore''\<close>, and
  resolves one output per output name.
\<close>

lemma CreateTensor_ignore_named:
  assumes "ignore_named ws"
  shows "tensor_name (heap (snd (CreateTensor ws ''ignore'')) (fst (CreateTensor ws ''ignore''))) =
    ''ignore''"
  using assms
  by (simp add: ignore_named_def CreateTensor_def new_Tensor_def split: option.splits)

lemma GetTensor_ignore_named:
  assumes "ignore_named ws" and "GetTensor ws n = Inr (a, ws')"
  shows "ignore_named ws'"
  using assms
  by (auto simp: ignore_named_def GetTensor_def CreateTensor_def new_Tensor_def
      split: option.splits if_splits)

lemma resolve_inputs_ignore_named:
  assumes "ignore_named ws" and "resolve_inputs ws ns = Inr (as, ws')"
  shows "ignore_named ws'"
  using assms
proof (induction ns arbitrary: ws as ws')
  case Nil
  then show ?case by simp
next
  case (Cons n ns)
  from Cons.prems(2) obtain a ws1 as1 where
    g: "GetTensor ws n = Inr (a, ws1)" and r: "resolve_inputs ws1 ns = Inr (as1, ws')"
    by (auto split: sum.splits prod.splits)
  from GetTensor_ignore_named [OF Cons.prems(1) g] r show ?case
    by (rule Cons.IH)
qed

lemma resolve_outputs_length: "length (fst (resolve_outputs ws ns)) = length ns"
proof (induction ns arbitrary: ws)
  case Nil
  show ?case by simp
next
  case (Cons n ns)
  obtain a ws1 where c: "CreateTensor ws n = (a, ws1)"
    by (cases "CreateTensor ws n")
  obtain as ws2 where r: "resolve_outputs ws1 ns = (as, ws2)"
    by (cases "resolve_outputs ws1 ns")
  from Cons.IH [of ws1] have "length as = length ns"
    by (simp add: r)
  then show ?case
    by (simp add: c r)
qed

lemma resolve_outputs_single:
  "resolve_outputs ws [n] = ([fst (CreateTensor ws n)], snd (CreateTensor ws n))"
  by (simp split: prod.splits)

lemma OutputSize_one:
  assumes "length (outputs op) < 2 ^ 31"
  shows "OutputSize op = 1 \<longleftrightarrow> length (outputs op) = 1"
proof -
  from assms have "length (outputs op) < 2 ^ LENGTH(64)" by simp
  then have "unat (of_nat (length (outputs op)) :: size_t) = length (outputs op)"
    by (rule of_nat_inverse [OF refl])
  then show ?thesis
    by (auto simp: OutputSize_def vector_size_def)
qed

lemma single_ignored_output_eq:
  assumes "length (outputs op) < 2 ^ 31"
  shows "single_ignored_output op ws =
     Inr (\<exists>a. outputs op = [a] \<and> tensor_name (heap ws a) = ''ignore'')"
proof (cases "length (outputs op) = 1")
  case True
  then obtain a where a: "outputs op = [a]"
    by (cases "outputs op") auto
  have "output op 0 = Inr a"
    by (simp add: output_eq [OF assms] a)
  then show ?thesis
    using True by (simp add: single_ignored_output_def OutputSize_one [OF assms] a)
next
  case False
  then show ?thesis
    by (auto simp: single_ignored_output_def OutputSize_one [OF assms])
qed

lemma MPICheck_args:
  assumes "args op = args op'"
  shows "MPICheck env op = MPICheck env op'"
  using assms by (simp add: MPICheck_def GetRepeatedArg_int_def)

lemma Operator_ctor_Inr:
  assumes "Operator_ctor env d ws = Inr (op, ws')"
  shows "\<exists>base gate ign.
    OperatorBase_ctor d ws = Inr (base, ws') \<and>
    MPICheck env base = Inr gate \<and>
    single_ignored_output base ws' = Inr ign \<and>
    args op = args base \<and> outputs op = outputs base \<and>
    allow_run op = (gate \<and> \<not> ign)"
proof (cases "OperatorBase_ctor d ws")
  case (Inl e)
  with assms show ?thesis by (simp add: Operator_ctor_def)
next
  case (Inr p)
  obtain base ws1 where p: "p = (base, ws1)" by (cases p)
  show ?thesis
  proof (cases "MPICheck env base")
    case (Inl e)
    with assms Inr p show ?thesis by (simp add: Operator_ctor_def)
  next
    case gate: (Inr gate)
    show ?thesis
    proof (cases "single_ignored_output base ws1")
      case (Inl e)
      with assms Inr p gate show ?thesis by (simp add: Operator_ctor_def)
    next
      case ign: (Inr ign)
      from assms Inr p gate ign
      have "op = \<lparr>phase = phase base, args = args base, inputs = inputs base,
                   outputs = outputs base, op_def = op_def base,
                   ctx = def_device_option d, allow_run = ((True \<and> gate) \<and> \<not> ign)\<rparr>"
        and "ws' = ws1"
        by (simp_all add: Operator_ctor_def)
      with Inr p gate ign show ?thesis by simp
    qed
  qed
qed

lemma OperatorBase_ctor_Inr:
  assumes "OperatorBase_ctor d ws = Inr (base, ws')"
  shows "\<exists>ins ws1.
    resolve_inputs ws (def_input d) = Inr (ins, ws1) \<and>
    resolve_outputs ws1 (def_output d) = (outputs base, ws')"
proof (cases "build_args Map.empty (def_arg d)")
  case (Inl e)
  with assms show ?thesis by (simp add: OperatorBase_ctor_def)
next
  case args: (Inr m)
  show ?thesis
  proof (cases "resolve_inputs ws (def_input d)")
    case (Inl e)
    with assms args show ?thesis by (simp add: OperatorBase_ctor_def)
  next
    case (Inr p)
    obtain ins ws1 where p: "p = (ins, ws1)" by (cases p)
    obtain outs ws2 where outs: "resolve_outputs ws1 (def_output d) = (outs, ws2)"
      by (cases "resolve_outputs ws1 (def_output d)")
    from assms args Inr p outs have "outputs base = outs" "ws' = ws2"
      by (auto simp: OperatorBase_ctor_def)
    with Inr p outs show ?thesis by simp
  qed
qed

text \<open>
  Claim C2. For a descriptor and a workspace from which the operator is constructed, the
  flag \<^verbatim>\<open>allow_run_\<close> is true if and only if the rank gate passes and the operator does not
  have exactly one output whose name is \<open>''ignore''\<close>. In particular an operator
  constructed with the output list \<open>[''ignore'']\<close> has the flag false, and its \<^verbatim>\<open>Run()\<close>
  makes no call and leaves the workspace as it is.
\<close>

theorem Operator_ctor_allow_run:
  assumes "Operator_ctor env d ws = Inr (op, ws')" and "length (def_output d) < 2 ^ 31"
  shows
    "(allow_run op \<longleftrightarrow>
        MPICheck env op = Inr True \<and>
        \<not> (\<exists>a. outputs op = [a] \<and> tensor_name (heap ws' a) = ''ignore'')) \<and>
     (def_output d = [''ignore''] \<and>
      (case tensor_map ws ''ignore'' of
         None \<Rightarrow> True
       | Some a \<Rightarrow> tensor_name (heap ws a) = ''ignore'') \<longrightarrow>
        \<not> allow_run op \<and> Run m op w = ([], Inr w))"
proof -
  from Operator_ctor_Inr [OF assms(1)] obtain base gate ign where
    base: "OperatorBase_ctor d ws = Inr (base, ws')" and
    gate: "MPICheck env base = Inr gate" and
    ign: "single_ignored_output base ws' = Inr ign" and
    fields: "args op = args base" "outputs op = outputs base" and
    allow: "allow_run op = (gate \<and> \<not> ign)"
    by blast
  from OperatorBase_ctor_Inr [OF base] obtain ins ws1 where
    ins: "resolve_inputs ws (def_input d) = Inr (ins, ws1)" and
    outs: "resolve_outputs ws1 (def_output d) = (outputs base, ws')"
    by blast
  have "length (outputs base) = length (def_output d)"
    using resolve_outputs_length [of ws1 "def_output d"] by (simp add: outs)
  with assms(2) have len: "length (outputs base) < 2 ^ 31" by simp
  have ign_eq: "ign \<longleftrightarrow> (\<exists>a. outputs op = [a] \<and> tensor_name (heap ws' a) = ''ignore'')"
    using ign by (simp add: single_ignored_output_eq [OF len] fields)
  have gate_eq: "gate \<longleftrightarrow> MPICheck env op = Inr True"
    using gate MPICheck_args [OF fields(1), of env] by auto
  have iff: "allow_run op \<longleftrightarrow>
        MPICheck env op = Inr True \<and>
        \<not> (\<exists>a. outputs op = [a] \<and> tensor_name (heap ws' a) = ''ignore'')"
    by (simp only: allow ign_eq gate_eq)
  have ignored: "\<not> allow_run op \<and> Run m op w = ([], Inr w)"
    if "def_output d = [''ignore'']" and "ignore_named ws"
  proof -
    have "ignore_named ws1"
      by (rule resolve_inputs_ignore_named [OF that(2) ins])
    then have "tensor_name (heap (snd (CreateTensor ws1 ''ignore'')) (fst (CreateTensor ws1 ''ignore''))) =
        ''ignore''"
      by (rule CreateTensor_ignore_named)
    moreover have "outputs base = [fst (CreateTensor ws1 ''ignore'')]"
      "ws' = snd (CreateTensor ws1 ''ignore'')"
      using outs by (simp_all only: that(1) resolve_outputs_single prod.inject)
    ultimately have "ign"
      by (simp add: ign_eq fields)
    then have "\<not> allow_run op" by (simp add: allow)
    then show ?thesis by (simp add: Run_def)
  qed
  show ?thesis
    using iff ignored by (simp add: ignore_named_def)
qed

text \<open>
  The theorem at a descriptor with the output list \<open>[''ignore'']\<close>, whose operator may not
  run, and at one with the output \<open>c\<close>, whose operator may.
\<close>

theorem Operator_ctor_allow_run_witness:
  "Operator_ctor no_mpi ignored_def example_run_ws = Inr (ignored_op, example_run_ws) \<and>
   length (def_output ignored_def) < 2 ^ 31 \<and>
   def_output ignored_def = [''ignore''] \<and>
   \<not> allow_run ignored_op \<and>
   Run normal_methods ignored_op example_run_ws = ([], Inr example_run_ws) \<and>
   Operator_ctor no_mpi (op_def example_op) example_run_ws = Inr (example_op, example_run_ws) \<and>
   allow_run example_op"
proof -
  have names: "tensor_map example_run_ws ''a'' = Some 0"
    "tensor_map example_run_ws ''ignore'' = Some 2" "tensor_map example_run_ws ''c'' = Some 3"
    "tensor_name (heap example_run_ws 2) = ''ignore''" "tensor_name (heap example_run_ws 3) = ''c''"
    by (simp_all add: example_run_ws_def new_Tensor_def)
  have get: "GetTensor example_run_ws ''a'' = Inr (0, example_run_ws)"
    "GetTensor example_run_ws ''ignore'' = Inr (2, example_run_ws)"
    "CreateTensor example_run_ws ''ignore'' = (2, example_run_ws)"
    "CreateTensor example_run_ws ''c'' = (3, example_run_ws)"
    by (simp_all add: GetTensor_def CreateTensor_def names)
  have out0: "output \<lparr>phase = p, args = g, inputs = i, outputs = [a], op_def = d\<rparr> 0 = Inr a"
    for p g i a d
    by (simp add: output_def vector_size_def vector_at_def)
  have b1: "OperatorBase_ctor ignored_def example_run_ws =
      Inr (\<lparr>phase = ''TEST'', args = Map.empty, inputs = [0], outputs = [2], op_def = ignored_def\<rparr>,
           example_run_ws)"
    by (simp add: OperatorBase_ctor_def get) (simp add: ignored_def_def example_def_def get)
  have b2: "OperatorBase_ctor (op_def example_op) example_run_ws =
      Inr (\<lparr>phase = ''TEST'', args = Map.empty, inputs = [0, 2], outputs = [3],
            op_def = op_def example_op\<rparr>, example_run_ws)"
    by (simp add: OperatorBase_ctor_def get) (simp add: example_op_def example_def_def get)
  have gate: "MPICheck no_mpi op = Inr True" for op :: OperatorBase
    by (simp add: MPICheck_def no_mpi_def)
  have c1: "Operator_ctor no_mpi ignored_def example_run_ws = Inr (ignored_op, example_run_ws)"
    by (simp add: Operator_ctor_def b1 gate single_ignored_output_def OutputSize_def
        vector_size_def out0 names)
      (simp add: ignored_op_def ignored_def_def example_def_def)
  have c2: "Operator_ctor no_mpi (op_def example_op) example_run_ws = Inr (example_op, example_run_ws)"
    by (simp add: Operator_ctor_def b2 gate single_ignored_output_def OutputSize_def
        vector_size_def out0 names)
      (simp add: example_op_def example_def_def)
  have h: "length (def_output ignored_def) < 2 ^ 31" "def_output ignored_def = [''ignore'']"
    "length (def_output (op_def example_op)) < 2 ^ 31"
    "case tensor_map example_run_ws ''ignore'' of
       None \<Rightarrow> True
     | Some a \<Rightarrow> tensor_name (heap example_run_ws a) = ''ignore''"
    by (simp_all add: ignored_def_def example_op_def example_def_def names)
  have g: "MPICheck no_mpi example_op = Inr True"
    "\<not> (\<exists>a. outputs example_op = [a] \<and> tensor_name (heap example_run_ws a) = ''ignore'')"
    by (simp_all add: MPICheck_def no_mpi_def example_op_def names)
  from Operator_ctor_allow_run [OF c1 h(1), of normal_methods example_run_ws] h(2,4)
  have "\<not> allow_run ignored_op \<and>
      Run normal_methods ignored_op example_run_ws = ([], Inr example_run_ws)"
    by blast
  moreover from Operator_ctor_allow_run [OF c2 h(3)] g
  have "allow_run example_op"
    by blast
  ultimately show ?thesis
    using c1 c2 h(1,2) by blast
qed

end
